theory Spec2Isabelle
  imports Main "HOL-Library.AList"
begin

section \<open>Session orchestration of the emulator MCP server\<close>

text \<open>
  The development embeds \<^verbatim>\<open>src/core/session-manager.ts\<close> (the class
  \<^verbatim>\<open>SessionManager\<close>), the emulator adapter (the class \<^verbatim>\<open>EmulatorAdapter\<close>)
  and the device-id line of the tool handlers. JavaScript numbers that hold ports,
  time stamps and durations are integers here; a promise that rejects and a
  \<^verbatim>\<open>throw\<close> are the left injection of a sum; the mutable fields of the manager,
  of the process supervisor and the workspace directories on disk form one record
  that every operation takes and returns. What the outside world answers (command
  output, whether a port is free, whether a write fails) is a parameter of the
  operation that asks. Calls of the logger change nothing the properties below
  speak of and are left out; messages and the detail objects of errors likewise.
\<close>

subsection \<open>Strings\<close>

text \<open>\<^verbatim>\<open>String.prototype.startsWith\<close> and \<^verbatim>\<open>String.prototype.includes\<close>.\<close>

fun startsWith :: "string \<Rightarrow> string \<Rightarrow> bool" where
  "startsWith s [] = True"
| "startsWith [] (c # cs) = False"
| "startsWith (d # ds) (c # cs) = (d = c \<and> startsWith ds cs)"

fun includes_str :: "string \<Rightarrow> string \<Rightarrow> bool" where
  "includes_str [] sub = (sub = [])"
| "includes_str (d # ds) sub = (startsWith (d # ds) sub \<or> includes_str ds sub)"

text \<open>
  \<^verbatim>\<open>String.prototype.trim\<close> on the ASCII white space characters (space, tab, line
  feed, vertical tab, form feed, carriage return).
\<close>

definition isSpace :: "char \<Rightarrow> bool" where
  "isSpace c = (c \<in> set [CHR '' '', CHR 0x09, CHR 0x0A, CHR 0x0B, CHR 0x0C, CHR 0x0D])"

definition trim :: "string \<Rightarrow> string" where
  "trim s = rev (dropWhile isSpace (rev (dropWhile isSpace s)))"

text \<open>\<^verbatim>\<open>s.split('\n')\<close>: the pieces between line feeds, at least one piece.\<close>

fun splitLines :: "string \<Rightarrow> string list" where
  "splitLines [] = [[]]"
| "splitLines (c # cs) =
     (if c = CHR 0x0A then [] # splitLines cs
      else (case splitLines cs of [] \<Rightarrow> [[c]] | l # ls \<Rightarrow> (c # l) # ls))"

text \<open>The decimal form of an integer, as a template literal prints a number.\<close>

function stringOfNat :: "nat \<Rightarrow> string" where
  "stringOfNat n =
     (if n < 10 then [''0123456789'' ! n]
      else stringOfNat (n div 10) @ [''0123456789'' ! (n mod 10)])"
  by pat_completeness auto
termination
  by (relation "measure id") auto

declare stringOfNat.simps [simp del]

definition stringOfInt :: "int \<Rightarrow> string" where
  "stringOfInt i = (if i < 0 then CHR ''-'' # stringOfNat (nat (- i)) else stringOfNat (nat i))"

subsection \<open>Errors\<close>

text \<open>
  \<^verbatim>\<open>ErrorCode\<close> of \<^verbatim>\<open>types/errors\<close>, with the members the embedded code names.
  An exception is a \<^verbatim>\<open>SniaffError\<close> with its code, or any other JavaScript
  error with its optional \<^verbatim>\<open>code\<close> property and its message.
\<close>

datatype ErrorCode =
    SESSION_NOT_FOUND
  | INVALID_ARGUMENT
  | AVD_NOT_FOUND
  | EMULATOR_BINARY_NOT_FOUND
  | ADB_NOT_FOUND
  | ADB_COMMAND_FAILED
  | EMULATOR_START_FAILED
  | EMULATOR_BOOT_TIMEOUT
  | PROXY_CONFIG_FAILED
  | INTERNAL_ERROR

datatype exn = SniaffError ErrorCode | JsError "string option" string

text \<open>The test \<^verbatim>\<open>err.code === 'ENOENT' || err.message?.includes('ENOENT')\<close>.\<close>

fun isENOENT :: "exn \<Rightarrow> bool" where
  "isENOENT (JsError c m) = (c = Some ''ENOENT'' \<or> includes_str m ''ENOENT'')"
| "isENOENT (SniaffError c) = False"

subsection \<open>The device id\<close>

text \<open>
  Each consumer computes the device id on a line of its own,
  \<^verbatim>\<open>const deviceId = `emulator-${adbPort - 1}`\<close>; one definition per line.
\<close>

definition waitForBoot_deviceId :: "int \<Rightarrow> string" where
  "waitForBoot_deviceId adbPort = ''emulator-'' @ stringOfInt (adbPort - 1)"

definition setProxy_deviceId :: "int \<Rightarrow> string" where
  "setProxy_deviceId adbPort = ''emulator-'' @ stringOfInt (adbPort - 1)"

definition clearProxy_deviceId :: "int \<Rightarrow> string" where
  "clearProxy_deviceId adbPort = ''emulator-'' @ stringOfInt (adbPort - 1)"

definition checkRootStatus_deviceId :: "int \<Rightarrow> string" where
  "checkRootStatus_deviceId adbPort = ''emulator-'' @ stringOfInt (adbPort - 1)"

definition installMagiskModule_deviceId :: "int \<Rightarrow> string" where
  "installMagiskModule_deviceId adbPort = ''emulator-'' @ stringOfInt (adbPort - 1)"

definition installMitmCertificate_deviceId :: "int \<Rightarrow> string" where
  "installMitmCertificate_deviceId adbPort = ''emulator-'' @ stringOfInt (adbPort - 1)"

definition reboot_deviceId :: "int \<Rightarrow> string" where
  "reboot_deviceId adbPort = ''emulator-'' @ stringOfInt (adbPort - 1)"

text \<open>
  The tool handlers \<^verbatim>\<open>sniaff.input_text\<close>, \<^verbatim>\<open>sniaff.key_event\<close> and
  \<^verbatim>\<open>sniaff.install_mitm_cert\<close> read the port from the session that
  \<^verbatim>\<open>getSession\<close> returned: \<^verbatim>\<open>`emulator-${session.adbPort - 1}`\<close>. They take
  the value of \<^verbatim>\<open>session.adbPort\<close> here.
\<close>

definition inputText_deviceId :: "int \<Rightarrow> string" where
  "inputText_deviceId session_adbPort = ''emulator-'' @ stringOfInt (session_adbPort - 1)"

definition keyEvent_deviceId :: "int \<Rightarrow> string" where
  "keyEvent_deviceId session_adbPort = ''emulator-'' @ stringOfInt (session_adbPort - 1)"

definition installMitmCert_deviceId :: "int \<Rightarrow> string" where
  "installMitmCert_deviceId session_adbPort = ''emulator-'' @ stringOfInt (session_adbPort - 1)"

text \<open>
  The spec's transform, \<^verbatim>\<open>deviceId = "emulator-" + (companionPort - 1)\<close>, for
  comparison with the lines of the code.
\<close>

definition deviceId_spec :: "int \<Rightarrow> string" where
  "deviceId_spec companionPort = ''emulator-'' @ stringOfInt (companionPort - 1)"

subsection \<open>Root check\<close>

text \<open>
  \<^verbatim>\<open>EmulatorAdapter.checkRootStatus\<close>. The command
  \<^verbatim>\<open><adbPath> -s <deviceId> shell "su -c id"\<close> is run by the \<^verbatim>\<open>exec\<close> given,
  which answers with the standard output or rejects.
\<close>

definition checkRootStatus_command :: "string \<Rightarrow> int \<Rightarrow> string" where
  "checkRootStatus_command adbPath adbPort =
     adbPath @ '' -s '' @ checkRootStatus_deviceId adbPort @ '' shell \"su -c id\"''"

definition checkRootStatus :: "(string \<Rightarrow> exn + string) \<Rightarrow> string \<Rightarrow> int \<Rightarrow> exn + bool" where
  "checkRootStatus exec adbPath adbPort =
     (case exec (checkRootStatus_command adbPath adbPort) of
        Inr stdout \<Rightarrow> Inr (includes_str stdout ''uid=0'')
      | Inl err \<Rightarrow> Inr False)"

subsection \<open>Data model\<close>

text \<open>
  \<^verbatim>\<open>SessionState\<close> and \<^verbatim>\<open>Session\<close> of \<^verbatim>\<open>types/session\<close>. A process id is a
  natural number; \<^verbatim>\<open>emulatorPid: null\<close> is \<open>None\<close>.
\<close>

datatype SessionState = SETUP_AVD | CREATE_WORKSPACE | START_EMULATOR | WAIT_BOOT | READY | ERROR

record Session =
  sessionId :: string
  avdName :: string
  emulatorPort :: int
  adbPort :: int
  createdAt :: string
  state :: SessionState
  workspacePath :: string
  emulatorPid :: "nat option"

text \<open>The fields of the setup adapter's result that \<^verbatim>\<open>startSession\<close> reads, and its copy.\<close>

record AvdSetupResult =
  result_avdName :: string
  result_wasCreated :: bool
  result_wasRooted :: bool
  result_systemImage :: string

record AvdSetupInfo =
  info_avdName :: string
  wasCreated :: bool
  wasRooted :: bool
  systemImage :: string

record SessionStartResult =
  started_sessionId :: string
  started_workspacePath :: string
  started_emulatorPort :: int
  started_adbPort :: int
  started_state :: SessionState
  avdSetup :: AvdSetupInfo

record StartInput =
  input_emulatorPort :: "int option"
  input_headless :: bool
  input_bootTimeout :: int

record EmulatorStartOptions =
  options_avdName :: string
  options_port :: "int option"
  options_headless :: bool
  options_logFile :: string

record EmulatorStartResult =
  pid :: nat
  consolePort :: int
  result_adbPort :: int

record Workspace =
  path :: string
  logsDir :: string

text \<open>The configuration values the embedded code reads.\<close>

record Config =
  emulatorPath :: string
  adbPath :: string
  defaultEmulatorPort :: int
  bootPollInterval :: int
  workspacesDir :: string

text \<open>A value of a field of the metadata record \<^verbatim>\<open>meta.json\<close>.\<close>

datatype MetaValue = MStr string | MNum int | MState SessionState

text \<open>
  The state all operations share: the registry \<^verbatim>\<open>sessions\<close> (a \<^verbatim>\<open>Map\<close>, which
  keeps insertion order, as an association list), the \<^verbatim>\<open>stateChange\<close> events
  emitted so far (oldest first), the processes the supervisor holds as running, and
  the workspace directories on disk, each with its metadata record.
\<close>

record world =
  sessions :: "(string \<times> Session) list"
  emitted :: "(string \<times> SessionState) list"
  running :: "nat set"
  workspaces :: "string \<rightharpoonup> (string \<rightharpoonup> MetaValue)"

text \<open>
  What the outside world answers during one \<^verbatim>\<open>startSession\<close>: the result of the
  image setup, whether creating the workspace fails, the output of
  \<^verbatim>\<open>emulator -list-avds\<close>, which ports the availability probe finds free, whether
  opening the log file fails, the process id the operating system gives (or the
  error of the spawn), whether the process exits during the settle delay, for the
  \<open>i\<close>-th run of \<^verbatim>\<open>adb devices\<close> and of \<^verbatim>\<open>getprop sys.boot_completed\<close> the time
  it takes in milliseconds and its output, whether the final and the rollback write
  of the metadata fail, and the time stamp \<^verbatim>\<open>new Date().toISOString()\<close>.
\<close>

record Env =
  ensureSniaffAvd :: "exn + AvdSetupResult"
  mkdirWorkspace :: "exn option"
  listAvdsExec :: "exn + string"
  portAvailable :: "int \<Rightarrow> bool"
  createWriteStream :: "exn option"
  spawnExec :: "exn + nat"
  exitedDuringSettle :: bool
  adbDevicesExec :: "nat \<Rightarrow> nat \<times> (exn + string)"
  getpropExec :: "nat \<Rightarrow> nat \<times> (exn + string)"
  persistMeta :: "exn option"
  rollbackMeta :: "exn option"
  toISOString :: string

subsection \<open>Process supervisor, port finder, workspace manager\<close>

text \<open>
  The classes \<^verbatim>\<open>ProcessSupervisor\<close> (\<^verbatim>\<open>core/process-supervisor\<close>),
  \<^verbatim>\<open>PortFinder\<close> (\<^verbatim>\<open>utils/port-finder\<close>) and \<^verbatim>\<open>WorkspaceManager\<close>
  (\<^verbatim>\<open>core/workspace-manager\<close>) are not among the sources; their operations
  follow sections 4.2, 4.5 and 4.6 of the spec.
\<close>

text \<open>
  Modelled from the spec: \<^verbatim>\<open>ProcessSupervisor.spawn\<close> is missing. Section 4.2:
  "Spawn must not block past confirming the process was accepted by the OS". The
  operating system answers with the process id or with an error; the supervisor
  holds the new process as running.
\<close>

definition spawn :: "exn + nat \<Rightarrow> world \<Rightarrow> (exn + nat) \<times> world" where
  "spawn os s =
     (case os of
        Inl err \<Rightarrow> (Inl err, s)
      | Inr p \<Rightarrow> (Inr p, s\<lparr>running := insert p (running s)\<rparr>))"

text \<open>
  Modelled from the spec: \<^verbatim>\<open>ProcessSupervisor.kill\<close> is missing. Section 4.2:
  "\<^verbatim>\<open>kill\<close> must be idempotent: killing an already-dead or unknown process
  identifier is not an error, only a no-op". It terminates the process and raises
  nothing.
\<close>

definition kill :: "nat \<Rightarrow> world \<Rightarrow> (exn + unit) \<times> world" where
  "kill p s = (Inr (), s\<lparr>running := running s - {p}\<rparr>)"

text \<open>
  Modelled from the spec: \<^verbatim>\<open>ProcessSupervisor.isRunning\<close> is missing. Section
  4.2 names it with \<^verbatim>\<open>spawn\<close> and \<^verbatim>\<open>kill\<close>; the emulator adapter uses it to
  see whether the process is still alive.
\<close>

definition isRunning :: "nat \<Rightarrow> world \<Rightarrow> bool" where
  "isRunning p s = (p \<in> running s)"

text \<open>
  Modelled from the spec: the handler of the supervisor for the exit of a process
  is missing. Section 3: the process handle is "released on confirmed termination".
  A process that exits by itself leaves the running processes.
\<close>

definition processExited :: "nat \<Rightarrow> world \<Rightarrow> world" where
  "processExited p s = s\<lparr>running := running s - {p}\<rparr>"

text \<open>
  Modelled from the spec: \<^verbatim>\<open>PortFinder.findAvailableEven\<close> is missing. Section
  4.5: it "scans even-valued candidates in [start, end] in ascending order, testing
  each for availability", and "returns the first available value or fails with an
  exhaustion error if none found in range". The test for availability is the
  probe given.
\<close>

definition findAvailableEven :: "(int \<Rightarrow> bool) \<Rightarrow> int \<Rightarrow> int \<Rightarrow> exn + int" where
  "findAvailableEven available startPort endPort =
     (case find available (filter even [startPort..endPort]) of
        Some p \<Rightarrow> Inr p
      | None \<Rightarrow> Inl (JsError None ''No available port''))"

text \<open>
  Modelled from the spec: \<^verbatim>\<open>WorkspaceManager.create\<close> is missing. Section 4.6:
  it "creates the directory tree, returns its paths"; section 8: the workspace is
  created at \<^verbatim>\<open><workspacesDir>/<sessionId>\<close>; section 4.1 counts the creation of
  the workspace among the steps that may fail. It takes the failure the file system
  answers with, if any, and then leaves the disk as it was.
\<close>

definition create :: "Config \<Rightarrow> exn option \<Rightarrow> string \<Rightarrow> world \<Rightarrow> (exn + Workspace) \<times> world" where
  "create cfg failure sid s =
     (case failure of
        Some err \<Rightarrow> (Inl err, s)
      | None \<Rightarrow>
          (Inr \<lparr>path = workspacesDir cfg @ ''/'' @ sid,
                logsDir = workspacesDir cfg @ ''/'' @ sid @ ''/logs''\<rparr>,
           s\<lparr>workspaces := (workspaces s)(sid \<mapsto> Map.empty)\<rparr>))"

text \<open>
  Modelled from the spec: \<^verbatim>\<open>WorkspaceManager.updateMeta\<close> is missing. Section
  4.6: it "merges fields into a persisted metadata record (create-if-absent, else
  merge-and-rewrite)"; section 4.1 counts the persisting of the final metadata
  among the steps that may fail. It takes the failure the file system answers
  with, if any, and then leaves the disk as it was.
\<close>

definition updateMeta ::
  "exn option \<Rightarrow> string \<Rightarrow> (string \<rightharpoonup> MetaValue) \<Rightarrow> world \<Rightarrow> (exn + unit) \<times> world" where
  "updateMeta failure sid partial s =
     (case failure of
        Some err \<Rightarrow> (Inl err, s)
      | None \<Rightarrow>
          (Inr (),
           s\<lparr>workspaces := (workspaces s)
                (sid \<mapsto> (case workspaces s sid of None \<Rightarrow> partial | Some m \<Rightarrow> m ++ partial))\<rparr>))"

text \<open>
  Modelled from the spec: \<^verbatim>\<open>WorkspaceManager.cleanup\<close> is missing. Section 4.6:
  it "recursively removes the directory tree; missing directory is not an error".
\<close>

definition cleanup :: "string \<Rightarrow> world \<Rightarrow> (exn + unit) \<times> world" where
  "cleanup sid s = (Inr (), s\<lparr>workspaces := (workspaces s)(sid := None)\<rparr>)"

text \<open>
  What a reader of the metadata record of a session finds under a field: nothing
  when the workspace is gone, otherwise the value of the field, if the record has it.
\<close>

definition readMeta :: "string \<Rightarrow> string \<Rightarrow> world \<Rightarrow> MetaValue option option" where
  "readMeta sid field s =
     (case workspaces s sid of None \<Rightarrow> None | Some m \<Rightarrow> Some (m field))"

subsection \<open>Emulator adapter: start\<close>

text \<open>\<^verbatim>\<open>EmulatorAdapter.listAvds\<close>.\<close>

definition listAvds :: "Env \<Rightarrow> exn + string list" where
  "listAvds env =
     (case listAvdsExec env of
        Inr stdout \<Rightarrow> Inr (filter (\<lambda>l. l \<noteq> []) (splitLines (trim stdout)))
      | Inl err \<Rightarrow>
          (if isENOENT err then Inl (SniaffError EMULATOR_BINARY_NOT_FOUND)
           else Inl (SniaffError EMULATOR_START_FAILED)))"

text \<open>
  The console port before the search: \<^verbatim>\<open>options.port || this.config.defaultEmulatorPort\<close>
  (the operator \<^verbatim>\<open>||\<close> takes the default for a missing port and for the port 0),
  then \<^verbatim>\<open>if (consolePort % 2 !== 0) consolePort++\<close> (the remainder is not zero
  exactly when the number is odd, whatever its sign).
\<close>

definition requestedPort :: "Config \<Rightarrow> EmulatorStartOptions \<Rightarrow> int" where
  "requestedPort cfg options =
     (case options_port options of
        None \<Rightarrow> defaultEmulatorPort cfg
      | Some p \<Rightarrow> (if p = 0 then defaultEmulatorPort cfg else p))"

definition roundUpEven :: "int \<Rightarrow> int" where
  "roundUpEven port = (if port mod 2 \<noteq> 0 then port + 1 else port)"

text \<open>
  \<^verbatim>\<open>EmulatorAdapter.start\<close>. The \<^verbatim>\<open>catch\<close> around the spawn rethrows a
  \<^verbatim>\<open>SniaffError\<close>, maps an error whose \<^verbatim>\<open>code\<close> is \<^verbatim>\<open>ENOENT\<close> to
  \<^verbatim>\<open>EMULATOR_BINARY_NOT_FOUND\<close> and any other to \<^verbatim>\<open>EMULATOR_START_FAILED\<close>.
\<close>

fun spawnError :: "exn \<Rightarrow> exn" where
  "spawnError (SniaffError c) = SniaffError c"
| "spawnError (JsError c m) =
     (if c = Some ''ENOENT'' then SniaffError EMULATOR_BINARY_NOT_FOUND
      else SniaffError EMULATOR_START_FAILED)"

definition start ::
  "Config \<Rightarrow> Env \<Rightarrow> EmulatorStartOptions \<Rightarrow> world \<Rightarrow> (exn + EmulatorStartResult) \<times> world" where
  "start cfg env options s =
     (case listAvds env of
        Inl err \<Rightarrow> (Inl err, s)
      | Inr avds \<Rightarrow>
          if options_avdName options \<notin> set avds then (Inl (SniaffError AVD_NOT_FOUND), s)
          else
            (case findAvailableEven (portAvailable env)
                    (roundUpEven (requestedPort cfg options)) 5682 of
               Inl err \<Rightarrow> (Inl (SniaffError EMULATOR_START_FAILED), s)
             | Inr port \<Rightarrow>
                 (case createWriteStream env of
                    Some err \<Rightarrow> (Inl (SniaffError EMULATOR_START_FAILED), s)
                  | None \<Rightarrow>
                      (case spawn (spawnExec env) s of
                         (Inl err, s1) \<Rightarrow> (Inl (spawnError err), s1)
                       | (Inr p, s1) \<Rightarrow>
                           (let s2 = (if exitedDuringSettle env then processExited p s1 else s1)
                            in if \<not> isRunning p s2
                               then (Inl (SniaffError EMULATOR_START_FAILED), s2)
                               else (Inr \<lparr>pid = p, consolePort = port,
                                          result_adbPort = port + 1\<rparr>, s2))))))"

text \<open>\<^verbatim>\<open>EmulatorAdapter.stop\<close>.\<close>

definition stop :: "nat \<Rightarrow> world \<Rightarrow> (exn + unit) \<times> world" where
  "stop p s = kill p s"

subsection \<open>Emulator adapter: waiting for the boot\<close>

text \<open>
  Time is the clock \<^verbatim>\<open>Date.now()\<close> in milliseconds. A command takes the time
  the outside world says. The private method \<^verbatim>\<open>delay(ms)\<close> is a timer of
  \<^verbatim>\<open>setTimeout\<close>, which fires after \<open>ms\<close> milliseconds, and after one
  millisecond when \<open>ms\<close> is less than 1 or more than 2147483647; the model lets
  it fire exactly then.
\<close>

definition delay :: "int \<Rightarrow> int \<Rightarrow> int" where
  "delay ms now = now + (if ms < 1 \<or> 2147483647 < ms then 1 else ms)"

text \<open>
  The loop of \<^verbatim>\<open>waitForDevice\<close>, at its \<open>i\<close>-th test of the clock: the result and
  the time of the return.
\<close>

function waitForDevice_loop ::
  "Env \<Rightarrow> string \<Rightarrow> int \<Rightarrow> int \<Rightarrow> nat \<Rightarrow> int \<Rightarrow> (exn + unit) \<times> int" where
  "waitForDevice_loop env deviceId timeout startTime i now =
     (if now - startTime < timeout then
        (case adbDevicesExec env i of
           (d, Inr stdout) \<Rightarrow>
             if includes_str stdout deviceId then (Inr (), now + int d)
             else waitForDevice_loop env deviceId timeout startTime (Suc i)
                    (delay 1000 (now + int d))
         | (d, Inl err) \<Rightarrow>
             if isENOENT err then (Inl (SniaffError ADB_NOT_FOUND), now + int d)
             else waitForDevice_loop env deviceId timeout startTime (Suc i)
                    (delay 1000 (now + int d)))
      else (Inl (SniaffError EMULATOR_BOOT_TIMEOUT), now))"
  by pat_completeness auto
termination
  by (relation "measure (\<lambda>(env, deviceId, timeout, startTime, i, now).
                  nat (timeout - (now - startTime)))")
     (auto simp: delay_def)

declare waitForDevice_loop.simps [simp del]

definition waitForDevice :: "Env \<Rightarrow> string \<Rightarrow> int \<Rightarrow> int \<Rightarrow> (exn + unit) \<times> int" where
  "waitForDevice env deviceId timeout now = waitForDevice_loop env deviceId timeout now 0 now"

text \<open>The second loop of \<^verbatim>\<open>waitForBoot\<close>, which polls the boot property.\<close>

function waitForBoot_loop ::
  "Config \<Rightarrow> Env \<Rightarrow> int \<Rightarrow> int \<Rightarrow> nat \<Rightarrow> int \<Rightarrow> (exn + unit) \<times> int" where
  "waitForBoot_loop cfg env timeout startTime i now =
     (if now - startTime < timeout then
        (case getpropExec env i of
           (d, Inr stdout) \<Rightarrow>
             if trim stdout = ''1'' then (Inr (), now + int d)
             else waitForBoot_loop cfg env timeout startTime (Suc i)
                    (delay (bootPollInterval cfg) (now + int d))
         | (d, Inl err) \<Rightarrow>
             waitForBoot_loop cfg env timeout startTime (Suc i)
               (delay (bootPollInterval cfg) (now + int d)))
      else (Inl (SniaffError EMULATOR_BOOT_TIMEOUT), now))"
  by pat_completeness auto
termination
  by (relation "measure (\<lambda>(cfg, env, timeout, startTime, i, now).
                  nat (timeout - (now - startTime)))")
     (auto simp: delay_def)

declare waitForBoot_loop.simps [simp del]

text \<open>
  \<^verbatim>\<open>EmulatorAdapter.waitForBoot\<close>, called at the time \<open>now\<close>: the result and the
  time of the return.
\<close>

definition waitForBoot :: "Config \<Rightarrow> Env \<Rightarrow> int \<Rightarrow> int \<Rightarrow> int \<Rightarrow> (exn + unit) \<times> int" where
  "waitForBoot cfg env port timeout now =
     (case waitForDevice env (waitForBoot_deviceId port) timeout now of
        (Inl err, t) \<Rightarrow> (Inl err, t)
      | (Inr u, t) \<Rightarrow> waitForBoot_loop cfg env timeout now 0 t)"

text \<open>
  The device never reports the boot as complete: no run of
  \<^verbatim>\<open>getprop sys.boot_completed\<close> prints \<^verbatim>\<open>1\<close>.
\<close>

definition neverBoots :: "Env \<Rightarrow> bool" where
  "neverBoots env = (\<forall>i out. snd (getpropExec env i) = Inr out \<longrightarrow> trim out \<noteq> ''1'')"

text \<open>The time the timer of the boot poll takes.\<close>

definition pollDelay :: "Config \<Rightarrow> int" where
  "pollDelay cfg = delay (bootPollInterval cfg) 0"

subsection \<open>Session manager\<close>

text \<open>
  The registry: \<^verbatim>\<open>sessions.set\<close>, \<^verbatim>\<open>sessions.delete\<close>, \<^verbatim>\<open>getSession\<close>,
  \<^verbatim>\<open>getAllSessions\<close>. An assignment to a field of the session object shows in the
  registry, which refers to the same object, as long as the registry holds the
  session.
\<close>

definition setSession :: "string \<Rightarrow> Session \<Rightarrow> world \<Rightarrow> world" where
  "setSession sid session s = s\<lparr>sessions := AList.update sid session (sessions s)\<rparr>"

definition deleteSession :: "string \<Rightarrow> world \<Rightarrow> world" where
  "deleteSession sid s = s\<lparr>sessions := AList.delete sid (sessions s)\<rparr>"

definition getSession :: "string \<Rightarrow> world \<Rightarrow> Session option" where
  "getSession sid s = map_of (sessions s) sid"

definition getAllSessions :: "world \<Rightarrow> Session list" where
  "getAllSessions s = map snd (sessions s)"

definition assignSession :: "Session \<Rightarrow> world \<Rightarrow> world" where
  "assignSession session s =
     (case getSession (sessionId session) s of
        None \<Rightarrow> s
      | Some old \<Rightarrow> setSession (sessionId session) session s)"

text \<open>\<^verbatim>\<open>updateState\<close>: the event \<^verbatim>\<open>stateChange\<close> with the session id and the state.\<close>

definition updateState :: "string \<Rightarrow> SessionState \<Rightarrow> world \<Rightarrow> world" where
  "updateState sid st s = s\<lparr>emitted := emitted s @ [(sid, st)]\<rparr>"

text \<open>
  \<^verbatim>\<open>rollback\<close>. The test \<^verbatim>\<open>if (session.emulatorPid)\<close> fails for \<^verbatim>\<open>null\<close> and
  for 0. An error of \<^verbatim>\<open>stop\<close> is logged and an error of \<^verbatim>\<open>updateMeta\<close> is
  ignored; both leave the rollback going.
\<close>

definition rollback :: "Env \<Rightarrow> Session option \<Rightarrow> world \<Rightarrow> world" where
  "rollback env local s =
     (case local of
        None \<Rightarrow> s
      | Some session0 \<Rightarrow>
          (let session = session0\<lparr>state := ERROR\<rparr>;
               s1 = assignSession session s;
               s2 = (case emulatorPid session of
                       None \<Rightarrow> s1
                     | Some p \<Rightarrow>
                         if p = 0 then s1
                         else (case stop p s1 of (Inl err, s') \<Rightarrow> s' | (Inr u, s') \<Rightarrow> s'));
               s3 = (case updateMeta (rollbackMeta env) (sessionId session)
                            [''state'' \<mapsto> MState ERROR] s2 of
                       (Inl err, s') \<Rightarrow> s'
                     | (Inr u, s') \<Rightarrow> s')
           in deleteSession (sessionId session) s3))"

text \<open>
  The \<^verbatim>\<open>try\<close> block of \<^verbatim>\<open>startSession\<close> in three parts, cut where the block
  waits for the emulator adapter. The first part runs up to the call of
  \<^verbatim>\<open>emulatorAdapter.start\<close>: the states \<^verbatim>\<open>SETUP_AVD\<close> and \<^verbatim>\<open>CREATE_WORKSPACE\<close>,
  the session object with the ports 0 put into the registry, the state
  \<^verbatim>\<open>START_EMULATOR\<close>. It returns the local variables \<^verbatim>\<open>session\<close>,
  \<^verbatim>\<open>workspace\<close> and \<^verbatim>\<open>avdSetupInfo\<close>.
\<close>

definition startSession_setup ::
  "Config \<Rightarrow> Env \<Rightarrow> string \<Rightarrow> world \<Rightarrow> (exn + Session \<times> Workspace \<times> AvdSetupInfo) \<times> world" where
  "startSession_setup cfg env sid s0 =
     (let s1 = updateState sid SETUP_AVD s0 in
      case ensureSniaffAvd env of
        Inl err \<Rightarrow> (Inl err, s1)
      | Inr avdSetupResult \<Rightarrow>
          (let avdSetupInfo = \<lparr>info_avdName = result_avdName avdSetupResult,
                               wasCreated = result_wasCreated avdSetupResult,
                               wasRooted = result_wasRooted avdSetupResult,
                               systemImage = result_systemImage avdSetupResult\<rparr>;
               s2 = updateState sid CREATE_WORKSPACE s1
           in case create cfg (mkdirWorkspace env) sid s2 of
                (Inl err, s3) \<Rightarrow> (Inl err, s3)
              | (Inr workspace, s3) \<Rightarrow>
                  (let session = \<lparr>sessionId = sid,
                                  avdName = result_avdName avdSetupResult,
                                  emulatorPort = 0,
                                  adbPort = 0,
                                  createdAt = toISOString env,
                                  state = CREATE_WORKSPACE,
                                  workspacePath = path workspace,
                                  emulatorPid = None\<rparr>;
                       s4 = setSession sid session s3;
                       s5 = updateState sid START_EMULATOR s4;
                       session' = session\<lparr>state := START_EMULATOR\<rparr>
                   in (Inr (session', workspace, avdSetupInfo), assignSession session' s5))))"

text \<open>
  The second part: the call of \<^verbatim>\<open>emulatorAdapter.start\<close>, the ports and the
  process id written to the session, the state \<^verbatim>\<open>WAIT_BOOT\<close>.
\<close>

definition startSession_launch ::
  "Config \<Rightarrow> Env \<Rightarrow> StartInput \<Rightarrow> Session \<Rightarrow> Workspace \<Rightarrow> world \<Rightarrow> (exn + Session) \<times> world" where
  "startSession_launch cfg env input session workspace s =
     (case start cfg env
             \<lparr>options_avdName = avdName session,
              options_port = input_emulatorPort input,
              options_headless = input_headless input,
              options_logFile = logsDir workspace @ ''/emulator.log''\<rparr> s of
        (Inl err, s1) \<Rightarrow> (Inl err, s1)
      | (Inr emulatorResult, s1) \<Rightarrow>
          (let session1 = session\<lparr>emulatorPort := consolePort emulatorResult,
                                   adbPort := result_adbPort emulatorResult,
                                   emulatorPid := Some (pid emulatorResult)\<rparr>;
               s2 = assignSession session1 s1;
               s3 = updateState (sessionId session) WAIT_BOOT s2;
               session2 = session1\<lparr>state := WAIT_BOOT\<rparr>
           in (Inr session2, assignSession session2 s3)))"

text \<open>
  The third part: the call of \<^verbatim>\<open>emulatorAdapter.waitForBoot\<close> (its clock starts
  at 0), the state \<^verbatim>\<open>READY\<close>, the final metadata, the result. A failure comes
  with the session object as it is then.
\<close>

definition startSession_finish ::
  "Config \<Rightarrow> Env \<Rightarrow> StartInput \<Rightarrow> Session \<Rightarrow> AvdSetupInfo \<Rightarrow> world
     \<Rightarrow> (exn \<times> Session + SessionStartResult) \<times> world" where
  "startSession_finish cfg env input session avdSetupInfo s =
     (case fst (waitForBoot cfg env (adbPort session) (input_bootTimeout input) 0) of
        Inl err \<Rightarrow> (Inl (err, session), s)
      | Inr u \<Rightarrow>
          (let s1 = updateState (sessionId session) READY s;
               session1 = session\<lparr>state := READY\<rparr>;
               s2 = assignSession session1 s1
           in case updateMeta (persistMeta env) (sessionId session)
                     [''sessionId'' \<mapsto> MStr (sessionId session1),
                      ''avdName'' \<mapsto> MStr (avdName session1),
                      ''emulatorPort'' \<mapsto> MNum (emulatorPort session1),
                      ''adbPort'' \<mapsto> MNum (adbPort session1),
                      ''createdAt'' \<mapsto> MStr (createdAt session1),
                      ''state'' \<mapsto> MState (state session1),
                      ''workspacePath'' \<mapsto> MStr (workspacePath session1)] s2 of
                (Inl err, s3) \<Rightarrow> (Inl (err, session1), s3)
              | (Inr u, s3) \<Rightarrow>
                  (Inr \<lparr>started_sessionId = sessionId session,
                        started_workspacePath = workspacePath session1,
                        started_emulatorPort = emulatorPort session1,
                        started_adbPort = adbPort session1,
                        started_state = READY,
                        avdSetup = avdSetupInfo\<rparr>, s3)))"

text \<open>
  The \<^verbatim>\<open>catch\<close> block rethrows a \<^verbatim>\<open>SniaffError\<close> and wraps any other error
  into \<^verbatim>\<open>INTERNAL_ERROR\<close>, after the rollback.
\<close>

fun startSession_error :: "exn \<Rightarrow> exn" where
  "startSession_error (SniaffError c) = SniaffError c"
| "startSession_error (JsError c m) = SniaffError INTERNAL_ERROR"

text \<open>\<^verbatim>\<open>startSession\<close>, with the session id \<^verbatim>\<open>generateSessionId()\<close> gave.\<close>

definition startSession ::
  "Config \<Rightarrow> Env \<Rightarrow> StartInput \<Rightarrow> string \<Rightarrow> world \<Rightarrow> (exn + SessionStartResult) \<times> world" where
  "startSession cfg env input sid s0 =
     (case startSession_setup cfg env sid s0 of
        (Inl err, s1) \<Rightarrow> (Inl (startSession_error err), rollback env None s1)
      | (Inr (session, workspace, avdSetupInfo), s1) \<Rightarrow>
          (case startSession_launch cfg env input session workspace s1 of
             (Inl err, s2) \<Rightarrow> (Inl (startSession_error err), rollback env (Some session) s2)
           | (Inr session', s2) \<Rightarrow>
               (case startSession_finish cfg env input session' avdSetupInfo s2 of
                  (Inl (err, session''), s3) \<Rightarrow>
                    (Inl (startSession_error err), rollback env (Some session'') s3)
                | (Inr result, s3) \<Rightarrow> (Inr result, s3))))"

text \<open>\<^verbatim>\<open>stopSession\<close>.\<close>

definition stopSession :: "string \<Rightarrow> world \<Rightarrow> (exn + unit) \<times> world" where
  "stopSession sid s =
     (case getSession sid s of
        None \<Rightarrow> (Inl (SniaffError SESSION_NOT_FOUND), s)
      | Some session \<Rightarrow>
          (case (case emulatorPid session of
                   None \<Rightarrow> (Inr (), s)
                 | Some p \<Rightarrow> if p = 0 then (Inr (), s) else stop p s) of
             (Inl err, s1) \<Rightarrow> (Inl err, s1)
           | (Inr u, s1) \<Rightarrow>
               (case cleanup sid s1 of
                  (Inl err, s2) \<Rightarrow> (Inl err, s2)
                | (Inr u', s2) \<Rightarrow> (Inr (), deleteSession sid s2))))"

text \<open>The order of the states in section 4.1 of the spec, without \<^verbatim>\<open>ERROR\<close>.\<close>

definition lifecycle :: "SessionState list" where
  "lifecycle = [SETUP_AVD, CREATE_WORKSPACE, START_EMULATOR, WAIT_BOOT, READY]"

text \<open>The manager after its constructor, on a disk without workspaces.\<close>

definition initial :: world where
  "initial = \<lparr>sessions = [], emitted = [], running = {}, workspaces = Map.empty\<rparr>"

subsection \<open>Calls that run side by side\<close>

text \<open>
  A call of \<^verbatim>\<open>startSession\<close> or \<^verbatim>\<open>stopSession\<close> runs until it waits for an
  operation (\<^verbatim>\<open>await\<close>) and goes on when the operation has finished; in between,
  other calls run. What a call of \<^verbatim>\<open>startSession\<close> waits for, with the local
  variables it goes on with (the lines are those of \<^verbatim>\<open>core/session-manager.ts\<close>):
  \<^verbatim>\<open>ensureSniaffAvd\<close> (line 66); \<^verbatim>\<open>create\<close> (line 79); inside \<^verbatim>\<open>emulatorAdapter.start\<close> (line 97) \<^verbatim>\<open>listAvds\<close>,
  \<^verbatim>\<open>findAvailableEven\<close>, \<^verbatim>\<open>spawn\<close> and \<^verbatim>\<open>delay(1000)\<close>, the last two with the
  console port found; \<^verbatim>\<open>waitForBoot\<close> (line 111), whose polls touch nothing of
  the manager; \<^verbatim>\<open>updateMeta\<close> (line 118); and inside \<^verbatim>\<open>rollback\<close>, with the
  error caught, \<^verbatim>\<open>stop\<close> (line 183) and \<^verbatim>\<open>updateMeta\<close> (line 194). At last
  the call has returned or thrown.
\<close>

datatype startWait =
    AwaitEnsureAvd
  | AwaitCreate AvdSetupResult
  | AwaitListAvds Session Workspace AvdSetupInfo
  | AwaitFindPort Session Workspace AvdSetupInfo
  | AwaitSpawn Session AvdSetupInfo int
  | AwaitSettle Session AvdSetupInfo int nat
  | AwaitBoot Session AvdSetupInfo
  | AwaitPersist Session AvdSetupInfo
  | AwaitRollbackStop Session exn nat
  | AwaitRollbackMeta Session exn
  | StartReturned "exn + SessionStartResult"

text \<open>
  The \<^verbatim>\<open>catch\<close> block of \<^verbatim>\<open>startSession\<close> up to the first wait of
  \<^verbatim>\<open>rollback\<close>: without a session \<^verbatim>\<open>rollback\<close> returns at once and the call
  throws; with a session it sets the state \<^verbatim>\<open>ERROR\<close> and waits for \<^verbatim>\<open>stop\<close>,
  if the session has a process id, and for \<^verbatim>\<open>updateMeta\<close> otherwise.
\<close>

definition startSession_catch :: "Session option \<Rightarrow> exn \<Rightarrow> world \<Rightarrow> startWait \<times> world" where
  "startSession_catch local err s =
     (case local of
        None \<Rightarrow> (StartReturned (Inl (startSession_error err)), s)
      | Some session0 \<Rightarrow>
          (let session = session0\<lparr>state := ERROR\<rparr>;
               s1 = assignSession session s
           in case emulatorPid session of
                None \<Rightarrow> (AwaitRollbackMeta session err, s1)
              | Some p \<Rightarrow>
                  if p = 0 then (AwaitRollbackMeta session err, s1)
                  else (AwaitRollbackStop session err p, s1)))"

text \<open>
  A call of \<^verbatim>\<open>startSession\<close> goes on: the operation it waited for takes effect
  and gives its result, and the call runs up to its next wait.
\<close>

fun startSession_resume ::
  "Config \<Rightarrow> Env \<Rightarrow> StartInput \<Rightarrow> string \<Rightarrow> startWait \<Rightarrow> world \<Rightarrow> startWait \<times> world" where
  "startSession_resume cfg env input sid AwaitEnsureAvd s =
     (case ensureSniaffAvd env of
        Inl err \<Rightarrow> startSession_catch None err s
      | Inr avdSetupResult \<Rightarrow> (AwaitCreate avdSetupResult, updateState sid CREATE_WORKSPACE s))"
| "startSession_resume cfg env input sid (AwaitCreate avdSetupResult) s =
     (case create cfg (mkdirWorkspace env) sid s of
        (Inl err, s1) \<Rightarrow> startSession_catch None err s1
      | (Inr workspace, s1) \<Rightarrow>
          (let avdSetupInfo = \<lparr>info_avdName = result_avdName avdSetupResult,
                               wasCreated = result_wasCreated avdSetupResult,
                               wasRooted = result_wasRooted avdSetupResult,
                               systemImage = result_systemImage avdSetupResult\<rparr>;
               session = \<lparr>sessionId = sid,
                          avdName = result_avdName avdSetupResult,
                          emulatorPort = 0,
                          adbPort = 0,
                          createdAt = toISOString env,
                          state = CREATE_WORKSPACE,
                          workspacePath = path workspace,
                          emulatorPid = None\<rparr>;
               s2 = setSession sid session s1;
               s3 = updateState sid START_EMULATOR s2;
               session' = session\<lparr>state := START_EMULATOR\<rparr>
           in (AwaitListAvds session' workspace avdSetupInfo, assignSession session' s3)))"
| "startSession_resume cfg env input sid (AwaitListAvds session workspace avdSetupInfo) s =
     (case listAvds env of
        Inl err \<Rightarrow> startSession_catch (Some session) err s
      | Inr avds \<Rightarrow>
          if avdName session \<notin> set avds
          then startSession_catch (Some session) (SniaffError AVD_NOT_FOUND) s
          else (AwaitFindPort session workspace avdSetupInfo, s))"
| "startSession_resume cfg env input sid (AwaitFindPort session workspace avdSetupInfo) s =
     (case findAvailableEven (portAvailable env)
             (roundUpEven (requestedPort cfg
                \<lparr>options_avdName = avdName session,
                 options_port = input_emulatorPort input,
                 options_headless = input_headless input,
                 options_logFile = logsDir workspace @ ''/emulator.log''\<rparr>)) 5682 of
        Inl err \<Rightarrow> startSession_catch (Some session) (SniaffError EMULATOR_START_FAILED) s
      | Inr port \<Rightarrow>
          (case createWriteStream env of
             Some err \<Rightarrow> startSession_catch (Some session) (SniaffError EMULATOR_START_FAILED) s
           | None \<Rightarrow> (AwaitSpawn session avdSetupInfo port, s)))"
| "startSession_resume cfg env input sid (AwaitSpawn session avdSetupInfo port) s =
     (case spawn (spawnExec env) s of
        (Inl err, s1) \<Rightarrow> startSession_catch (Some session) (spawnError err) s1
      | (Inr p, s1) \<Rightarrow> (AwaitSettle session avdSetupInfo port p, s1))"
| "startSession_resume cfg env input sid (AwaitSettle session avdSetupInfo port p) s =
     (let s1 = (if exitedDuringSettle env then processExited p s else s)
      in if \<not> isRunning p s1
         then startSession_catch (Some session) (SniaffError EMULATOR_START_FAILED) s1
         else
           (let session1 = session\<lparr>emulatorPort := port,
                                    adbPort := port + 1,
                                    emulatorPid := Some p\<rparr>;
                s2 = assignSession session1 s1;
                s3 = updateState sid WAIT_BOOT s2;
                session2 = session1\<lparr>state := WAIT_BOOT\<rparr>
            in (AwaitBoot session2 avdSetupInfo, assignSession session2 s3)))"
| "startSession_resume cfg env input sid (AwaitBoot session avdSetupInfo) s =
     (case fst (waitForBoot cfg env (adbPort session) (input_bootTimeout input) 0) of
        Inl err \<Rightarrow> startSession_catch (Some session) err s
      | Inr u \<Rightarrow>
          (let s1 = updateState sid READY s;
               session1 = session\<lparr>state := READY\<rparr>
           in (AwaitPersist session1 avdSetupInfo, assignSession session1 s1)))"
| "startSession_resume cfg env input sid (AwaitPersist session avdSetupInfo) s =
     (case updateMeta (persistMeta env) sid
             [''sessionId'' \<mapsto> MStr (sessionId session),
              ''avdName'' \<mapsto> MStr (avdName session),
              ''emulatorPort'' \<mapsto> MNum (emulatorPort session),
              ''adbPort'' \<mapsto> MNum (adbPort session),
              ''createdAt'' \<mapsto> MStr (createdAt session),
              ''state'' \<mapsto> MState (state session),
              ''workspacePath'' \<mapsto> MStr (workspacePath session)] s of
        (Inl err, s1) \<Rightarrow> startSession_catch (Some session) err s1
      | (Inr u, s1) \<Rightarrow>
          (StartReturned (Inr \<lparr>started_sessionId = sid,
                               started_workspacePath = workspacePath session,
                               started_emulatorPort = emulatorPort session,
                               started_adbPort = adbPort session,
                               started_state = READY,
                               avdSetup = avdSetupInfo\<rparr>), s1))"
| "startSession_resume cfg env input sid (AwaitRollbackStop session err p) s =
     (case stop p s of
        (Inl err', s1) \<Rightarrow> (AwaitRollbackMeta session err, s1)
      | (Inr u, s1) \<Rightarrow> (AwaitRollbackMeta session err, s1))"
| "startSession_resume cfg env input sid (AwaitRollbackMeta session err) s =
     (case updateMeta (rollbackMeta env) (sessionId session) [''state'' \<mapsto> MState ERROR] s of
        (Inl err', s1) \<Rightarrow>
          (StartReturned (Inl (startSession_error err)), deleteSession (sessionId session) s1)
      | (Inr u, s1) \<Rightarrow>
          (StartReturned (Inl (startSession_error err)), deleteSession (sessionId session) s1))"
| "startSession_resume cfg env input sid (StartReturned r) s = (StartReturned r, s)"

text \<open>
  \<^verbatim>\<open>stopSession\<close> in the same way: it looks the session up and waits for
  \<^verbatim>\<open>stop\<close> (line 222), if the session has a process id, then for \<^verbatim>\<open>cleanup\<close>
  (line 226), and deletes the session from the registry.
\<close>

datatype stopWait = AwaitStop nat | AwaitCleanup | StopReturned "exn + unit"

definition stopSession_enter :: "string \<Rightarrow> world \<Rightarrow> stopWait" where
  "stopSession_enter sid s =
     (case getSession sid s of
        None \<Rightarrow> StopReturned (Inl (SniaffError SESSION_NOT_FOUND))
      | Some session \<Rightarrow>
          (case emulatorPid session of
             None \<Rightarrow> AwaitCleanup
           | Some p \<Rightarrow> if p = 0 then AwaitCleanup else AwaitStop p))"

fun stopSession_resume :: "string \<Rightarrow> stopWait \<Rightarrow> world \<Rightarrow> stopWait \<times> world" where
  "stopSession_resume sid (AwaitStop p) s =
     (case stop p s of
        (Inl err, s1) \<Rightarrow> (StopReturned (Inl err), s1)
      | (Inr u, s1) \<Rightarrow> (AwaitCleanup, s1))"
| "stopSession_resume sid AwaitCleanup s =
     (case cleanup sid s of
        (Inl err, s1) \<Rightarrow> (StopReturned (Inl err), s1)
      | (Inr u, s1) \<Rightarrow> (StopReturned (Inr ()), deleteSession sid s1))"
| "stopSession_resume sid (StopReturned r) s = (StopReturned r, s)"

text \<open>A call of \<^verbatim>\<open>startSession\<close> that goes on \<open>n\<close> times in a row.\<close>

fun startSession_run ::
  "nat \<Rightarrow> Config \<Rightarrow> Env \<Rightarrow> StartInput \<Rightarrow> string \<Rightarrow> startWait \<times> world
     \<Rightarrow> startWait \<times> world" where
  "startSession_run 0 cfg env input sid ws = ws"
| "startSession_run (Suc n) cfg env input sid (w, s) =
     startSession_run n cfg env input sid (startSession_resume cfg env input sid w s)"

text \<open>
  The manager with its calls: the shared state, the calls of \<^verbatim>\<open>startSession\<close>
  under the session id \<^verbatim>\<open>generateSessionId()\<close> gave them, each with its
  configuration, its outside world, its input and what it waits for, and the calls
  of \<^verbatim>\<open>stopSession\<close> under a number.
\<close>

record startCall =
  call_config :: Config
  call_env :: Env
  call_input :: StartInput
  call_wait :: startWait

record stopCall =
  stop_sessionId :: string
  stop_wait :: stopWait

record manager =
  shared :: world
  starts :: "string \<rightharpoonup> startCall"
  stops :: "nat \<rightharpoonup> stopCall"

text \<open>
  Modelled from the spec: \<^verbatim>\<open>generateSessionId\<close> (\<^verbatim>\<open>utils/id-generator\<close>) is
  missing. Section 3: a session has an "opaque unique session identifier generated
  at start"; section 4.1: \<^verbatim>\<open>startSession\<close> "generates a fresh session identifier
  before any side effect". An id is fresh when no call of \<^verbatim>\<open>startSession\<close> had
  it before.
\<close>

definition freshSessionId :: "string \<Rightarrow> manager \<Rightarrow> bool" where
  "freshSessionId sid m = (starts m sid = None)"

text \<open>
  The steps of the manager: a new call of \<^verbatim>\<open>startSession\<close>, which gets a fresh
  id, announces \<^verbatim>\<open>SETUP_AVD\<close> and waits for the image setup; a call
  of \<^verbatim>\<open>startSession\<close> that goes on; a new call of \<^verbatim>\<open>stopSession\<close>; a call of
  \<^verbatim>\<open>stopSession\<close> that goes on; the exit of a process. The steps of several calls
  follow each other in any order. A call that has returned changes nothing any more.
\<close>

datatype step =
    CallStart Config Env StartInput string
  | ResumeStart string
  | CallStop nat string
  | ResumeStop nat
  | ProcessExit nat

fun applyStep :: "step \<Rightarrow> manager \<Rightarrow> manager option" where
  "applyStep (CallStart cfg env input sid) m =
     (if freshSessionId sid m then
        Some (m\<lparr>shared := updateState sid SETUP_AVD (shared m),
                starts := (starts m)(sid \<mapsto>
                  \<lparr>call_config = cfg, call_env = env, call_input = input,
                   call_wait = AwaitEnsureAvd\<rparr>)\<rparr>)
      else None)"
| "applyStep (ResumeStart sid) m =
     (case starts m sid of
        None \<Rightarrow> None
      | Some c \<Rightarrow>
          (case startSession_resume (call_config c) (call_env c) (call_input c) sid
                  (call_wait c) (shared m) of
             (w, s) \<Rightarrow> Some (m\<lparr>shared := s, starts := (starts m)(sid \<mapsto> c\<lparr>call_wait := w\<rparr>)\<rparr>)))"
| "applyStep (CallStop k sid) m =
     (if stops m k = None then
        Some (m\<lparr>stops := (stops m)(k \<mapsto>
                  \<lparr>stop_sessionId = sid, stop_wait = stopSession_enter sid (shared m)\<rparr>)\<rparr>)
      else None)"
| "applyStep (ResumeStop k) m =
     (case stops m k of
        None \<Rightarrow> None
      | Some c \<Rightarrow>
          (case stopSession_resume (stop_sessionId c) (stop_wait c) (shared m) of
             (w, s) \<Rightarrow> Some (m\<lparr>shared := s, stops := (stops m)(k \<mapsto> c\<lparr>stop_wait := w\<rparr>)\<rparr>)))"
| "applyStep (ProcessExit p) m = Some (m\<lparr>shared := processExited p (shared m)\<rparr>)"

fun runSteps :: "step list \<Rightarrow> manager \<Rightarrow> manager option" where
  "runSteps [] m = Some m"
| "runSteps (x # xs) m = (case applyStep x m of None \<Rightarrow> None | Some m' \<Rightarrow> runSteps xs m')"

text \<open>The manager after its constructor, without calls.\<close>

definition initialManager :: manager where
  "initialManager = \<lparr>shared = initial, starts = Map.empty, stops = Map.empty\<rparr>"

text \<open>
  The ports of a session: those of a session that still waits for its emulator,
  and those of a session that was given its ports. A call has found a port when
  its port search, from the requested port of its input, returned the port.
\<close>

definition placeholderPorts :: "Session \<Rightarrow> bool" where
  "placeholderPorts x = (emulatorPid x = None \<and> emulatorPort x = 0 \<and> adbPort x = 0)"

definition givenPorts :: "Session \<Rightarrow> bool" where
  "givenPorts x =
     (emulatorPid x \<noteq> None \<and> even (emulatorPort x) \<and> emulatorPort x \<le> 5682
      \<and> adbPort x = emulatorPort x + 1)"

definition foundBy :: "startCall \<Rightarrow> int \<Rightarrow> bool" where
  "foundBy c port =
     (\<exists>options. options_port options = input_emulatorPort (call_input c)
        \<and> findAvailableEven (portAvailable (call_env c))
             (roundUpEven (requestedPort (call_config c) options)) 5682 = Inr port)"

text \<open>
  What holds of a manager in every state that steps reach: an entry of the registry
  stands under the id of its session and has the ports of a waiting session or
  ports its call found; and the session a call holds as a local variable has the id
  of the call and such ports as well, the ports 0 as long as the call waits inside
  \<^verbatim>\<open>emulatorAdapter.start\<close>, where the port the call holds is one it found.
\<close>

definition localOk :: "startCall \<Rightarrow> string \<Rightarrow> Session \<Rightarrow> bool" where
  "localOk c sid x =
     (sessionId x = sid
      \<and> (placeholderPorts x \<or> (givenPorts x \<and> foundBy c (emulatorPort x))))"

fun waitOk :: "startCall \<Rightarrow> string \<Rightarrow> startWait \<Rightarrow> bool" where
  "waitOk c sid AwaitEnsureAvd = True"
| "waitOk c sid (AwaitCreate avdSetupResult) = True"
| "waitOk c sid (AwaitListAvds session workspace avdSetupInfo) =
     (sessionId session = sid \<and> placeholderPorts session)"
| "waitOk c sid (AwaitFindPort session workspace avdSetupInfo) =
     (sessionId session = sid \<and> placeholderPorts session)"
| "waitOk c sid (AwaitSpawn session avdSetupInfo port) =
     (sessionId session = sid \<and> placeholderPorts session \<and> foundBy c port)"
| "waitOk c sid (AwaitSettle session avdSetupInfo port p) =
     (sessionId session = sid \<and> placeholderPorts session \<and> foundBy c port)"
| "waitOk c sid (AwaitBoot session avdSetupInfo) = localOk c sid session"
| "waitOk c sid (AwaitPersist session avdSetupInfo) = localOk c sid session"
| "waitOk c sid (AwaitRollbackStop session err p) = localOk c sid session"
| "waitOk c sid (AwaitRollbackMeta session err) = localOk c sid session"
| "waitOk c sid (StartReturned r) = True"

definition managerInv :: "manager \<Rightarrow> bool" where
  "managerInv m =
     ((\<forall>k x. (k, x) \<in> set (sessions (shared m))
         \<longrightarrow> (\<exists>c. starts m k = Some c \<and> localOk c k x))
    \<and> (\<forall>sid c. starts m sid = Some c \<longrightarrow> waitOk c sid (call_wait c)))"

subsection \<open>A configuration and an outside world for examples\<close>

text \<open>
  The defaults of the configuration, and a world in which everything works: the
  image is there, the port 5554 is free, the emulator gets the process id 4343, the
  device shows up at once and has booted at the first poll.
\<close>

definition exampleConfig :: Config where
  "exampleConfig =
     \<lparr>emulatorPath = ''emulator'', adbPath = ''adb'', defaultEmulatorPort = 5554,
      bootPollInterval = 2000, workspacesDir = ''/home/user/.sniaff/workspaces''\<rparr>"

definition exampleEnv :: Env where
  "exampleEnv =
     \<lparr>ensureSniaffAvd = Inr \<lparr>result_avdName = ''SniaffPhone'', result_wasCreated = False,
                              result_wasRooted = False, result_systemImage = ''android-35''\<rparr>,
      mkdirWorkspace = None,
      listAvdsExec = Inr ''SniaffPhone'',
      portAvailable = (\<lambda>p. True),
      createWriteStream = None,
      spawnExec = Inr 4343,
      exitedDuringSettle = False,
      adbDevicesExec = (\<lambda>i. (0, Inr ''emulator-5554 device'')),
      getpropExec = (\<lambda>i. (0, Inr ''1'')),
      persistMeta = None,
      rollbackMeta = None,
      toISOString = ''2024-01-01T00:00:00.000Z''\<rparr>"

definition exampleInput :: StartInput where
  "exampleInput =
     \<lparr>input_emulatorPort = None, input_headless = True, input_bootTimeout = 120000\<rparr>"

text \<open>
  A state with one ready session, its emulator running and its workspace on disk.
\<close>

definition exampleSession :: Session where
  "exampleSession =
     \<lparr>sessionId = ''sess-a'', avdName = ''SniaffPhone'', emulatorPort = 5554,
      adbPort = 5555, createdAt = ''2024-01-01T00:00:00.000Z'', state = READY,
      workspacePath = ''/home/user/.sniaff/workspaces/sess-a'',
      emulatorPid = Some 4242\<rparr>"

definition exampleWorld :: world where
  "exampleWorld =
     \<lparr>sessions = [(''sess-a'', exampleSession)],
      emitted = [],
      running = {4242},
      workspaces = [''sess-a'' \<mapsto> [''state'' \<mapsto> MState READY]]\<rparr>"

text \<open>Options for the emulator adapter with the managed image and a requested port.\<close>

definition exampleOptions :: "int option \<Rightarrow> EmulatorStartOptions" where
  "exampleOptions requested =
     \<lparr>options_avdName = ''SniaffPhone'', options_port = requested, options_headless = True,
      options_logFile = ''/home/user/.sniaff/workspaces/sess-b/logs/emulator.log''\<rparr>"

text \<open>
  Outside worlds in which a start fails: the image setup fails; the emulator does
  not list the managed image; the device never reports the boot as complete; the
  disk is full, so that every write of the metadata fails. And an input with a boot
  timeout of five seconds.
\<close>

definition setupFailsEnv :: Env where
  "setupFailsEnv = exampleEnv\<lparr>ensureSniaffAvd := Inl (SniaffError INTERNAL_ERROR)\<rparr>"

definition noImageEnv :: Env where
  "noImageEnv = exampleEnv\<lparr>listAvdsExec := Inr ''Pixel_7''\<rparr>"

definition neverBootsEnv :: Env where
  "neverBootsEnv = exampleEnv\<lparr>getpropExec := (\<lambda>i. (0, Inr ''0''))\<rparr>"

definition diskFullEnv :: Env where
  "diskFullEnv =
     exampleEnv\<lparr>persistMeta := Some (JsError (Some ''ENOSPC'') ''no space left on device''),
                 rollbackMeta := Some (JsError (Some ''ENOSPC'') ''no space left on device'')\<rparr>"

definition shortInput :: StartInput where
  "shortInput =
     \<lparr>input_emulatorPort = None, input_headless = True, input_bootTimeout = 5000\<rparr>"

text \<open>
  Outside worlds for the boot wait: \<^verbatim>\<open>adb devices\<close> takes three seconds and never
  lists the device; it answers at once and never lists the device; the \<^verbatim>\<open>adb\<close>
  binary is missing.
\<close>

definition slowAdbEnv :: Env where
  "slowAdbEnv =
     exampleEnv\<lparr>adbDevicesExec := (\<lambda>i. (3000, Inr ''List of devices attached'')),
                 getpropExec := (\<lambda>i. (0, Inr ''0''))\<rparr>"

definition noDeviceEnv :: Env where
  "noDeviceEnv =
     exampleEnv\<lparr>adbDevicesExec := (\<lambda>i. (0, Inr ''List of devices attached'')),
                 getpropExec := (\<lambda>i. (0, Inr ''0''))\<rparr>"

definition noAdbEnv :: Env where
  "noAdbEnv =
     exampleEnv\<lparr>adbDevicesExec := (\<lambda>i. (0, Inl (JsError (Some ''ENOENT'') ''spawn adb ENOENT''))),
                 getpropExec := (\<lambda>i. (0, Inr ''0''))\<rparr>"

text \<open>
  Two calls of \<^verbatim>\<open>startSession\<close> side by side, in an outside world where the
  probe finds the port 5554 free as long as no emulator listens on it. Both calls
  register their session; both search their port before either has spawned its
  emulator; both spawn, settle and write their ports; both wait for the boot and
  persist the metadata. And the first six steps alone, after which both sessions
  wait for their emulator.
\<close>

definition raceSteps :: "step list" where
  "raceSteps =
     [CallStart exampleConfig exampleEnv exampleInput ''sess-a'',
      ResumeStart ''sess-a'', ResumeStart ''sess-a'',
      CallStart exampleConfig (exampleEnv\<lparr>spawnExec := Inr 4444\<rparr>) exampleInput ''sess-b'',
      ResumeStart ''sess-b'', ResumeStart ''sess-b'',
      ResumeStart ''sess-a'', ResumeStart ''sess-a'',
      ResumeStart ''sess-b'', ResumeStart ''sess-b'',
      ResumeStart ''sess-a'', ResumeStart ''sess-b'',
      ResumeStart ''sess-a'', ResumeStart ''sess-b'',
      ResumeStart ''sess-a'', ResumeStart ''sess-b'',
      ResumeStart ''sess-a'', ResumeStart ''sess-b'']"

definition waitingSteps :: "step list" where
  "waitingSteps = take 6 raceSteps"

text \<open>
  One call after the other: the first call runs to its end; for the second the
  probe finds the port 5554 taken and the port 5556 free, and the call gets as far
  as the boot wait.
\<close>

definition secondEnv :: Env where
  "secondEnv = exampleEnv\<lparr>portAvailable := (\<lambda>p. p \<noteq> 5554), spawnExec := Inr 4444\<rparr>"

definition sequentialSteps :: "step list" where
  "sequentialSteps =
     [CallStart exampleConfig exampleEnv exampleInput ''sess-a'',
      ResumeStart ''sess-a'', ResumeStart ''sess-a'', ResumeStart ''sess-a'',
      ResumeStart ''sess-a'', ResumeStart ''sess-a'', ResumeStart ''sess-a'',
      ResumeStart ''sess-a'', ResumeStart ''sess-a'',
      CallStart exampleConfig secondEnv exampleInput ''sess-b'',
      ResumeStart ''sess-b'', ResumeStart ''sess-b'', ResumeStart ''sess-b'',
      ResumeStart ''sess-b'', ResumeStart ''sess-b'', ResumeStart ''sess-b'']"

section \<open>Properties\<close>

subsection \<open>Helper facts\<close>

lemma startsWith_iff: "startsWith s sub \<longleftrightarrow> (\<exists>post. s = sub @ post)"
  by (induction s sub rule: startsWith.induct) auto

lemma includes_str_iff: "includes_str s sub \<longleftrightarrow> (\<exists>pre post. s = pre @ sub @ post)"
proof (induction s)
  case Nil
  then show ?case by auto
next
  case (Cons d ds)
  show ?case
  proof
    assume "includes_str (d # ds) sub"
    then consider "startsWith (d # ds) sub" | "includes_str ds sub" by auto
    then show "\<exists>pre post. d # ds = pre @ sub @ post"
    proof cases
      case 1
      then obtain post where "d # ds = sub @ post" by (auto simp: startsWith_iff)
      then have "d # ds = [] @ sub @ post" by simp
      then show ?thesis by blast
    next
      case 2
      then obtain pre post where "ds = pre @ sub @ post" using Cons.IH by blast
      then have "d # ds = (d # pre) @ sub @ post" by simp
      then show ?thesis by blast
    qed
  next
    assume "\<exists>pre post. d # ds = pre @ sub @ post"
    then obtain pre post where eq: "d # ds = pre @ sub @ post" by blast
    show "includes_str (d # ds) sub"
    proof (cases pre)
      case Nil
      with eq have "startsWith (d # ds) sub" by (auto simp: startsWith_iff)
      then show ?thesis by simp
    next
      case (Cons e pre')
      with eq have "ds = pre' @ sub @ post" by simp
      then have "includes_str ds sub" using Cons.IH by blast
      then show ?thesis by simp
    qed
  qed
qed

subsection \<open>Stopping an unknown session\<close>

text \<open>
  C3. For a session id that the registry does not hold, \<^verbatim>\<open>stopSession\<close> fails with
  \<^verbatim>\<open>SESSION_NOT_FOUND\<close> and returns the state it was given: the registry, the
  running processes, the workspaces and the emitted events are the same.
\<close>

theorem stopSession_unknown:
  "getSession sid s = None \<Longrightarrow> stopSession sid s = (Inl (SniaffError SESSION_NOT_FOUND), s)"
  by (simp add: stopSession_def)

theorem stopSession_unknown_witness:
  "getSession ''sess-b'' exampleWorld = None
   \<and> stopSession ''sess-b'' exampleWorld = (Inl (SniaffError SESSION_NOT_FOUND), exampleWorld)"
  using stopSession_unknown [of "''sess-b''" exampleWorld]
  by (simp add: getSession_def exampleWorld_def)

subsection \<open>Root check\<close>

text \<open>
  C8. \<^verbatim>\<open>checkRootStatus\<close> returns true only if the identity command succeeded and
  its output contains \<^verbatim>\<open>uid=0\<close>; if the command fails the result is false; in every
  case it returns a boolean and throws nothing.
\<close>

theorem checkRootStatus_only_if_root:
  "(checkRootStatus exec adb port = Inr True \<longrightarrow>
      (\<exists>pre post. exec (checkRootStatus_command adb port) = Inr (pre @ ''uid=0'' @ post)))
   \<and> (\<forall>err. exec (checkRootStatus_command adb port) = Inl err \<longrightarrow>
          checkRootStatus exec adb port = Inr False)
   \<and> (\<exists>b. checkRootStatus exec adb port = Inr b)"
  by (auto simp: checkRootStatus_def includes_str_iff split: sum.splits)

theorem checkRootStatus_only_if_root_witness:
  "checkRootStatus (\<lambda>c. Inr ''uid=0(root) gid=0(root)'') ''adb'' 5555 = Inr True
   \<and> (\<exists>pre post. ''uid=0(root) gid=0(root)'' = pre @ ''uid=0'' @ post)
   \<and> checkRootStatus (\<lambda>c. Inl (JsError None ''su: not found'')) ''adb'' 5555 = Inr False"
  using checkRootStatus_only_if_root [of "\<lambda>c. Inr ''uid=0(root) gid=0(root)''" "''adb''" 5555]
    checkRootStatus_only_if_root [of "\<lambda>c. Inl (JsError None ''su: not found'')" "''adb''" 5555]
  by (simp add: checkRootStatus_def)

subsection \<open>One transform for the device id\<close>

text \<open>
  C9. The boot wait, the proxy operations, the root check, the two install
  operations and the reboot of the emulator adapter, and the tool handlers for text
  input, key events and the certificate page, all derive the device id as
  \<^verbatim>\<open>"emulator-"\<close> followed by the companion port minus one.
\<close>

theorem deviceId_same_transform:
  "waitForBoot_deviceId p = deviceId_spec p
   \<and> setProxy_deviceId p = deviceId_spec p
   \<and> clearProxy_deviceId p = deviceId_spec p
   \<and> checkRootStatus_deviceId p = deviceId_spec p
   \<and> installMagiskModule_deviceId p = deviceId_spec p
   \<and> installMitmCertificate_deviceId p = deviceId_spec p
   \<and> reboot_deviceId p = deviceId_spec p
   \<and> inputText_deviceId p = deviceId_spec p
   \<and> keyEvent_deviceId p = deviceId_spec p
   \<and> installMitmCert_deviceId p = deviceId_spec p"
  by (simp add: waitForBoot_deviceId_def setProxy_deviceId_def clearProxy_deviceId_def
      checkRootStatus_deviceId_def installMagiskModule_deviceId_def
      installMitmCertificate_deviceId_def reboot_deviceId_def inputText_deviceId_def
      keyEvent_deviceId_def installMitmCert_deviceId_def deviceId_spec_def)

subsection \<open>Frame facts of the operations\<close>

lemma updateState_fields [simp]:
  "sessions (updateState sid st s) = sessions s"
  "emitted (updateState sid st s) = emitted s @ [(sid, st)]"
  "running (updateState sid st s) = running s"
  "workspaces (updateState sid st s) = workspaces s"
  by (simp_all add: updateState_def)

lemma setSession_fields [simp]:
  "sessions (setSession sid session s) = AList.update sid session (sessions s)"
  "emitted (setSession sid session s) = emitted s"
  "running (setSession sid session s) = running s"
  "workspaces (setSession sid session s) = workspaces s"
  by (simp_all add: setSession_def)

lemma deleteSession_fields [simp]:
  "sessions (deleteSession sid s) = AList.delete sid (sessions s)"
  "emitted (deleteSession sid s) = emitted s"
  "running (deleteSession sid s) = running s"
  "workspaces (deleteSession sid s) = workspaces s"
  by (simp_all add: deleteSession_def)

lemma assignSession_fields [simp]:
  "emitted (assignSession session s) = emitted s"
  "running (assignSession session s) = running s"
  "workspaces (assignSession session s) = workspaces s"
  by (simp_all add: assignSession_def split: option.splits)

lemma getSession_updateState [simp]: "getSession k (updateState sid st s) = getSession k s"
  by (simp add: getSession_def)

lemma getSession_setSession [simp]:
  "getSession k (setSession sid session s) = (if k = sid then Some session else getSession k s)"
  by (simp add: getSession_def update_conv')

lemma getSession_deleteSession [simp]:
  "getSession k (deleteSession sid s) = (if k = sid then None else getSession k s)"
  by (simp add: getSession_def delete_conv')

lemma getSession_assignSession [simp]:
  "getSession k (assignSession session s) =
     (if k = sessionId session \<and> getSession k s \<noteq> None then Some session else getSession k s)"
  by (auto simp: assignSession_def split: option.splits)

lemma kill_fields [simp]:
  "fst (kill p s) = Inr ()"
  "sessions (snd (kill p s)) = sessions s"
  "emitted (snd (kill p s)) = emitted s"
  "running (snd (kill p s)) = running s - {p}"
  "workspaces (snd (kill p s)) = workspaces s"
  by (simp_all add: kill_def)

lemma getSession_kill [simp]: "getSession k (snd (kill p s)) = getSession k s"
  by (simp add: getSession_def)

lemma cleanup_fields [simp]:
  "fst (cleanup sid s) = Inr ()"
  "sessions (snd (cleanup sid s)) = sessions s"
  "emitted (snd (cleanup sid s)) = emitted s"
  "running (snd (cleanup sid s)) = running s"
  "workspaces (snd (cleanup sid s)) = (workspaces s)(sid := None)"
  by (simp_all add: cleanup_def)

lemma updateMeta_fields [simp]:
  "sessions (snd (updateMeta failure sid partial s)) = sessions s"
  "emitted (snd (updateMeta failure sid partial s)) = emitted s"
  "running (snd (updateMeta failure sid partial s)) = running s"
  by (simp_all add: updateMeta_def split: option.splits)

lemma getSession_updateMeta [simp]:
  "getSession k (snd (updateMeta failure sid partial s)) = getSession k s"
  by (simp add: getSession_def)

lemma create_fields [simp]:
  "sessions (snd (create cfg failure sid s)) = sessions s"
  "emitted (snd (create cfg failure sid s)) = emitted s"
  "running (snd (create cfg failure sid s)) = running s"
  by (simp_all add: create_def split: option.splits)

lemma start_frame [simp]:
  "sessions (snd (start cfg env options s)) = sessions s"
  "emitted (snd (start cfg env options s)) = emitted s"
  "workspaces (snd (start cfg env options s)) = workspaces s"
  by (simp_all add: start_def spawn_def processExited_def Let_def split: sum.splits option.splits prod.splits)

lemma getSession_start [simp]: "getSession k (snd (start cfg env options s)) = getSession k s"
  by (simp add: getSession_def)

lemma getSession_in_getAllSessions: "getSession sid s = Some session \<Longrightarrow> session \<in> set (getAllSessions s)"
  unfolding getSession_def getAllSessions_def
  by (metis image_eqI list.set_map map_of_SomeD snd_conv)

subsection \<open>Facts about the examples\<close>

lemma exampleEnv_fields:
  "ensureSniaffAvd exampleEnv = Inr \<lparr>result_avdName = ''SniaffPhone'', result_wasCreated = False,
                              result_wasRooted = False, result_systemImage = ''android-35''\<rparr>"
  "mkdirWorkspace exampleEnv = None"
  "portAvailable exampleEnv = (\<lambda>p. True)"
  "createWriteStream exampleEnv = None"
  "spawnExec exampleEnv = Inr 4343"
  "exitedDuringSettle exampleEnv = False"
  "persistMeta exampleEnv = None"
  "rollbackMeta exampleEnv = None"
  "toISOString exampleEnv = ''2024-01-01T00:00:00.000Z''"
  by (simp_all add: exampleEnv_def)

lemma exampleEnv_polls:
  "listAvdsExec exampleEnv = Inr ''SniaffPhone''"
  "adbDevicesExec exampleEnv = (\<lambda>i. (0, Inr ''emulator-5554 device''))"
  "getpropExec exampleEnv = (\<lambda>i. (0, Inr ''1''))"
  by (simp_all add: exampleEnv_def)

lemma findAvailableEven_first_free:
  "even a \<Longrightarrow> a \<le> b \<Longrightarrow> available a \<Longrightarrow> findAvailableEven available a b = Inr a"
  by (simp add: findAvailableEven_def upto_rec1 [of a b])

lemma findAvailableEven_second_free:
  assumes "even a" "a + 2 \<le> b" "\<not> available a" "available (a + 2)"
  shows "findAvailableEven available a b = Inr (a + 2)"
proof -
  from assms(2) have 1: "[a..b] = a # [a + 1..b]" by (simp add: upto_rec1)
  from assms(2) have 2: "[a + 1..b] = (a + 1) # [a + 1 + 1..b]" by (simp add: upto_rec1)
  from assms(2) have 3: "[a + 2..b] = (a + 2) # [a + 2 + 1..b]" by (simp add: upto_rec1)
  have 4: "a + 1 + 1 = a + 2" by simp
  from 1 2 3 4 have "[a..b] = a # (a + 1) # (a + 2) # [a + 2 + 1..b]" by metis
  with assms show ?thesis by (simp add: findAvailableEven_def)
qed

lemma start_found:
  assumes "listAvds env = Inr avds" "options_avdName options \<in> set avds"
    "findAvailableEven (portAvailable env) (roundUpEven (requestedPort cfg options)) 5682 = Inr port"
    "createWriteStream env = None" "spawnExec env = Inr p" "\<not> exitedDuringSettle env"
  shows "start cfg env options s =
    (Inr \<lparr>pid = p, consolePort = port, result_adbPort = port + 1\<rparr>,
     s\<lparr>running := insert p (running s)\<rparr>)"
  using assms by (simp add: start_def spawn_def isRunning_def)

lemma listAvds_managed: "listAvdsExec env = Inr ''SniaffPhone'' \<Longrightarrow> listAvds env = Inr [''SniaffPhone'']"
  by (simp add: listAvds_def trim_def isSpace_def)

lemma start_example_first:
  assumes "listAvdsExec env = Inr ''SniaffPhone''" "options_avdName options = ''SniaffPhone''"
    "options_port options = None" "portAvailable env 5554"
    "createWriteStream env = None" "spawnExec env = Inr p" "\<not> exitedDuringSettle env"
  shows "start exampleConfig env options s =
    (Inr \<lparr>pid = p, consolePort = 5554, result_adbPort = 5555\<rparr>,
     s\<lparr>running := insert p (running s)\<rparr>)"
proof -
  have "roundUpEven (requestedPort exampleConfig options) = 5554"
    using assms(3) by (simp add: requestedPort_def roundUpEven_def exampleConfig_def)
  with assms(4) have "findAvailableEven (portAvailable env)
      (roundUpEven (requestedPort exampleConfig options)) 5682 = Inr 5554"
    by (simp add: findAvailableEven_first_free)
  from start_found [OF listAvds_managed [OF assms(1)] _ this assms(5,6,7)] assms(2)
  show ?thesis by simp
qed

lemma waitForBoot_example:
  assumes "adbDevicesExec env 0 = (0, Inr ''emulator-5554 device'')"
    "getpropExec env 0 = (0, Inr ''1'')" "0 < timeout"
  shows "waitForBoot cfg env 5555 timeout 0 = (Inr (), 0)"
proof -
  have dev: "waitForBoot_deviceId 5555 = ''emulator-5554''"
    by (simp add: waitForBoot_deviceId_def stringOfInt_def stringOfNat.simps)
  have "waitForDevice env ''emulator-5554'' timeout 0 = (Inr (), 0)"
    using assms(1,3)
    by (simp add: waitForDevice_def waitForDevice_loop.simps [of env "''emulator-5554''" timeout 0 0 0])
  moreover have "waitForBoot_loop cfg env timeout 0 0 0 = (Inr (), 0)"
    using assms(2,3)
    by (simp add: waitForBoot_loop.simps [of cfg env timeout 0 0 0] trim_def isSpace_def)
  ultimately show ?thesis by (simp add: waitForBoot_def dev)
qed

lemma exampleConfig_fields:
  "workspacesDir exampleConfig = ''/home/user/.sniaff/workspaces''"
  "bootPollInterval exampleConfig = 2000"
  "defaultEmulatorPort exampleConfig = 5554"
  by (simp_all add: exampleConfig_def)

lemmas session_defs = startSession_def startSession_setup_def startSession_launch_def
  startSession_finish_def rollback_def create_def updateMeta_def stop_def kill_def
  assignSession_def getSession_def setSession_def deleteSession_def updateState_def Let_def
  exampleEnv_fields exampleEnv_polls exampleConfig_fields exampleInput_def shortInput_def
  exampleWorld_def exampleSession_def readMeta_def

subsection \<open>The session in the registry before the emulator has started\<close>

text \<open>
  C10. When the first part of \<^verbatim>\<open>startSession\<close> has created the workspace and the
  call waits for \<^verbatim>\<open>emulatorAdapter.start\<close>, the registry holds the session with
  console port 0, companion port 0 and no process id; \<^verbatim>\<open>getSession\<close> returns it
  and \<^verbatim>\<open>getAllSessions\<close> lists it, in the state \<^verbatim>\<open>START_EMULATOR\<close>; the device
  id a tool handler derives from it is \<^verbatim>\<open>emulator--1\<close>; and the adapter's
  \<^verbatim>\<open>start\<close> leaves the entry as it is until it returns.
\<close>

theorem startSession_setup_placeholder:
  assumes "startSession_setup cfg env sid s0 = (Inr (session, workspace, info), s)"
  shows "getSession sid s = Some session
    \<and> session \<in> set (getAllSessions s)
    \<and> emulatorPort session = 0 \<and> adbPort session = 0 \<and> emulatorPid session = None
    \<and> state session = START_EMULATOR
    \<and> inputText_deviceId (adbPort session) = ''emulator--1''
    \<and> getSession sid (snd (start cfg env options s)) = Some session"
proof -
  from assms have sess: "getSession sid s = Some session"
    and fields: "emulatorPort session = 0" "adbPort session = 0" "emulatorPid session = None"
      "state session = START_EMULATOR"
    by (auto simp: startSession_setup_def Let_def split: sum.splits prod.splits)
  have dev: "inputText_deviceId 0 = ''emulator--1''"
    by (simp add: inputText_deviceId_def stringOfInt_def stringOfNat.simps)
  from sess fields dev show ?thesis
    by (simp add: getSession_in_getAllSessions)
qed

theorem startSession_setup_placeholder_witness:
  "(\<exists>session workspace info s.
      startSession_setup exampleConfig exampleEnv ''sess-b'' exampleWorld
        = (Inr (session, workspace, info), s)
      \<and> getSession ''sess-b'' s = Some session
      \<and> emulatorPort session = 0 \<and> adbPort session = 0 \<and> emulatorPid session = None)"
  using startSession_setup_placeholder [of exampleConfig exampleEnv "''sess-b''" exampleWorld]
  by (simp add: startSession_setup_def exampleEnv_fields create_def Let_def)

subsection \<open>The console port of a started emulator\<close>

lemma find_sorted_least:
  "sorted xs \<Longrightarrow> find P xs = Some x \<Longrightarrow> P x \<and> x \<in> set xs \<and> (\<forall>y\<in>set xs. y < x \<longrightarrow> \<not> P y)"
  for xs :: "int list"
proof (induction xs)
  case Nil
  then show ?case by simp
next
  case (Cons a xs)
  show ?case
  proof (cases "P a")
    case True
    with Cons.prems have "x = a" by simp
    with True Cons.prems show ?thesis by auto
  next
    case False
    with Cons.prems have "find P xs = Some x" "sorted xs" by simp_all
    with Cons.IH have "P x \<and> x \<in> set xs \<and> (\<forall>y\<in>set xs. y < x \<longrightarrow> \<not> P y)" by blast
    with False show ?thesis by auto
  qed
qed

lemma findAvailableEven_first:
  assumes "findAvailableEven available a b = Inr p"
  shows "even p \<and> a \<le> p \<and> p \<le> b \<and> available p
         \<and> (\<forall>q. even q \<and> a \<le> q \<and> q < p \<longrightarrow> \<not> available q)"
proof -
  from assms have f: "find available (filter even [a..b]) = Some p"
    by (simp add: findAvailableEven_def split: option.splits)
  have "sorted (filter even [a..b])" by (simp add: sorted_wrt_filter)
  from find_sorted_least [OF this f] show ?thesis by auto
qed

lemma roundUpEven_even: "even (roundUpEven n) \<and> n \<le> roundUpEven n \<and> roundUpEven n \<le> n + 1
   \<and> (even n \<longrightarrow> roundUpEven n = n)"
  by (auto simp: roundUpEven_def)

text \<open>
  C7, amended. When \<^verbatim>\<open>start\<close> returns, the port it looked from is the requested
  port, or the configured default when no port or the port 0 was requested, plus one
  when that number is odd; the console port is even, lies between that number and
  5682 inclusive, the probe found it available and found no smaller even port from
  that number on available; the companion port is the console port plus one.
\<close>

theorem start_console_port:
  assumes "start cfg env options s = (Inr result, s')"
  shows "requestedPort cfg options =
           (if options_port options = None \<or> options_port options = Some 0
            then defaultEmulatorPort cfg else the (options_port options))
    \<and> roundUpEven (requestedPort cfg options) =
           (if odd (requestedPort cfg options) then requestedPort cfg options + 1
            else requestedPort cfg options)
    \<and> even (consolePort result)
    \<and> roundUpEven (requestedPort cfg options) \<le> consolePort result
    \<and> consolePort result \<le> 5682
    \<and> portAvailable env (consolePort result)
    \<and> (\<forall>q. even q \<and> roundUpEven (requestedPort cfg options) \<le> q \<and> q < consolePort result
           \<longrightarrow> \<not> portAvailable env q)
    \<and> result_adbPort result = consolePort result + 1"
proof -
  from assms obtain port where
    f: "findAvailableEven (portAvailable env) (roundUpEven (requestedPort cfg options)) 5682 = Inr port"
    and r: "consolePort result = port" "result_adbPort result = port + 1"
    by (auto simp: start_def Let_def split: sum.splits if_splits option.splits prod.splits)
  have req: "requestedPort cfg options =
           (if options_port options = None \<or> options_port options = Some 0
            then defaultEmulatorPort cfg else the (options_port options))"
    by (auto simp: requestedPort_def split: option.splits)
  have rnd: "roundUpEven (requestedPort cfg options) =
           (if odd (requestedPort cfg options) then requestedPort cfg options + 1
            else requestedPort cfg options)"
    by (auto simp: roundUpEven_def odd_iff_mod_2_eq_one)
  from findAvailableEven_first [OF f] r req rnd show ?thesis by simp
qed

theorem start_console_port_witness:
  "start exampleConfig exampleEnv (exampleOptions (Some 5555)) exampleWorld =
     (Inr \<lparr>pid = 4343, consolePort = 5556, result_adbPort = 5557\<rparr>,
      exampleWorld\<lparr>running := {4343, 4242}\<rparr>)
   \<and> roundUpEven (requestedPort exampleConfig (exampleOptions (Some 5555))) = 5556"
proof -
  have r: "roundUpEven (requestedPort exampleConfig (exampleOptions (Some 5555))) = 5556"
    by (simp add: requestedPort_def roundUpEven_def exampleOptions_def)
  then have "findAvailableEven (portAvailable exampleEnv)
      (roundUpEven (requestedPort exampleConfig (exampleOptions (Some 5555)))) 5682 = Inr 5556"
    by (simp add: findAvailableEven_first_free exampleEnv_fields)
  from start_found [OF listAvds_managed _ this, of 4343 exampleWorld]
  have st: "start exampleConfig exampleEnv (exampleOptions (Some 5555)) exampleWorld =
     (Inr \<lparr>pid = 4343, consolePort = 5556, result_adbPort = 5557\<rparr>,
      exampleWorld\<lparr>running := {4343, 4242}\<rparr>)"
    by (simp add: exampleEnv_fields exampleEnv_polls exampleOptions_def exampleWorld_def)
  from start_console_port [OF st] st r show ?thesis by simp
qed

text \<open>
  C7 as stated fails for a requested port 0: with every port available the first
  available even port at or above 0 is 0, and \<^verbatim>\<open>start\<close> returns 5554, the
  first one at or above the default.
\<close>

theorem start_port_zero_counterexample:
  "map_sum id consolePort (fst (start exampleConfig exampleEnv (exampleOptions (Some 0)) exampleWorld))
     = Inr 5554
   \<and> options_port (exampleOptions (Some 0)) = Some 0
   \<and> even (0::int) \<and> (0::int) \<le> 5682 \<and> portAvailable exampleEnv 0"
proof -
  have "roundUpEven (requestedPort exampleConfig (exampleOptions (Some 0))) = 5554"
    by (simp add: requestedPort_def roundUpEven_def exampleOptions_def exampleConfig_fields)
  then have "findAvailableEven (portAvailable exampleEnv)
      (roundUpEven (requestedPort exampleConfig (exampleOptions (Some 0)))) 5682 = Inr 5554"
    by (simp add: findAvailableEven_first_free exampleEnv_fields)
  from start_found [OF listAvds_managed _ this, of 4343 exampleWorld]
  have "fst (start exampleConfig exampleEnv (exampleOptions (Some 0)) exampleWorld)
      = Inr \<lparr>pid = 4343, consolePort = 5554, result_adbPort = 5555\<rparr>"
    by (simp add: exampleEnv_fields exampleEnv_polls exampleOptions_def)
  then show ?thesis
    by (simp add: exampleOptions_def exampleEnv_fields)
qed

subsection \<open>Stopping a session of the registry\<close>

lemma stop_fields [simp]:
  "fst (stop p s) = Inr ()"
  "sessions (snd (stop p s)) = sessions s"
  "emitted (snd (stop p s)) = emitted s"
  "running (snd (stop p s)) = running s - {p}"
  "workspaces (snd (stop p s)) = workspaces s"
  by (simp_all add: stop_def)

lemma getSession_stop [simp]: "getSession k (snd (stop p s)) = getSession k s"
  by (simp add: getSession_def)

lemma getSession_cleanup [simp]: "getSession k (snd (cleanup sid s)) = getSession k s"
  by (simp add: getSession_def)

lemma stopSession_Some:
  assumes "getSession sid s = Some session"
  shows "stopSession sid s =
    (Inr (),
     deleteSession sid
       (snd (cleanup sid
          (case emulatorPid session of
             None \<Rightarrow> s
           | Some p \<Rightarrow> if p = 0 then s else snd (stop p s)))))"
  using assms
  by (auto simp: stopSession_def split: option.splits prod.splits sum.splits)
     (metis fst_conv stop_fields(1) cleanup_fields(1) sum.distinct(1) snd_conv)+

text \<open>
  C4. For a session id of the registry \<^verbatim>\<open>stopSession\<close> succeeds, whether the
  process of the session is still running or already dead: afterwards the process
  is not running, the workspace directory is gone, the registry has no entry for
  the id, so that \<^verbatim>\<open>getSession\<close> finds nothing, and the other sessions and
  workspaces are as before. (A process id is positive; the code skips the kill for
  the id 0.)
\<close>

theorem stopSession_known:
  assumes "getSession sid s = Some session"
  shows "fst (stopSession sid s) = Inr ()
    \<and> getSession sid (snd (stopSession sid s)) = None
    \<and> workspaces (snd (stopSession sid s)) sid = None
    \<and> (\<forall>p. emulatorPid session = Some p \<and> p \<noteq> 0 \<longrightarrow> \<not> isRunning p (snd (stopSession sid s)))
    \<and> (\<forall>k. k \<noteq> sid \<longrightarrow> getSession k (snd (stopSession sid s)) = getSession k s
                       \<and> workspaces (snd (stopSession sid s)) k = workspaces s k)"
  by (simp add: stopSession_Some [OF assms] isRunning_def split: option.splits)

theorem stopSession_known_witness:
  "getSession ''sess-a'' exampleWorld = Some exampleSession
   \<and> isRunning 4242 exampleWorld
   \<and> fst (stopSession ''sess-a'' exampleWorld) = Inr ()
   \<and> getSession ''sess-a'' (snd (stopSession ''sess-a'' exampleWorld)) = None
   \<and> \<not> isRunning 4242 (snd (stopSession ''sess-a'' exampleWorld))
   \<and> \<not> isRunning 4242 (exampleWorld\<lparr>running := {}\<rparr>)
   \<and> fst (stopSession ''sess-a'' (exampleWorld\<lparr>running := {}\<rparr>)) = Inr ()
   \<and> getSession ''sess-a'' (snd (stopSession ''sess-a'' (exampleWorld\<lparr>running := {}\<rparr>))) = None"
  using stopSession_known [of "''sess-a''" exampleWorld exampleSession]
    stopSession_known [of "''sess-a''" "exampleWorld\<lparr>running := {}\<rparr>" exampleSession]
  by (simp add: getSession_def exampleWorld_def exampleSession_def isRunning_def)

subsection \<open>The parts of a session start\<close>

lemma create_result:
  "create cfg failure sid s = (r, s') \<Longrightarrow>
     (case failure of
        Some err \<Rightarrow> r = Inl err \<and> s' = s
      | None \<Rightarrow> (\<exists>w. r = Inr w) \<and> workspaces s' = (workspaces s)(sid \<mapsto> Map.empty))"
  by (auto simp: create_def split: option.splits)

lemma getSession_create [simp]: "getSession k (snd (create cfg failure sid s)) = getSession k s"
  by (simp add: getSession_def)

lemma setup_cases:
  assumes "startSession_setup cfg env sid s0 = (r, s1)"
  shows "running s1 = running s0 \<and>
    (case r of
       Inl err \<Rightarrow>
         sessions s1 = sessions s0 \<and> workspaces s1 = workspaces s0
         \<and> (emitted s1 = emitted s0 @ [(sid, SETUP_AVD)]
            \<or> emitted s1 = emitted s0 @ [(sid, SETUP_AVD), (sid, CREATE_WORKSPACE)])
     | Inr (session, workspace, info) \<Rightarrow>
         emitted s1 = emitted s0 @ [(sid, SETUP_AVD), (sid, CREATE_WORKSPACE), (sid, START_EMULATOR)]
         \<and> getSession sid s1 = Some session
         \<and> sessionId session = sid \<and> emulatorPid session = None
         \<and> workspaces s1 = (workspaces s0)(sid \<mapsto> Map.empty)
         \<and> (\<forall>k. k \<noteq> sid \<longrightarrow> getSession k s1 = getSession k s0))"
proof (cases "ensureSniaffAvd env")
  case (Inl err)
  with assms show ?thesis by (auto simp: startSession_setup_def Let_def)
next
  case (Inr avdSetupResult)
  obtain r2 s3 where c: "create cfg (mkdirWorkspace env) sid
      (updateState sid CREATE_WORKSPACE (updateState sid SETUP_AVD s0)) = (r2, s3)"
    by (cases "create cfg (mkdirWorkspace env) sid
      (updateState sid CREATE_WORKSPACE (updateState sid SETUP_AVD s0))") auto
  have fr: "sessions s3 = sessions s0" "running s3 = running s0"
    "emitted s3 = emitted s0 @ [(sid, SETUP_AVD), (sid, CREATE_WORKSPACE)]"
    "\<And>k. getSession k s3 = getSession k s0"
    using create_fields [of cfg "mkdirWorkspace env" sid
        "updateState sid CREATE_WORKSPACE (updateState sid SETUP_AVD s0)"]
      getSession_create [of _ cfg "mkdirWorkspace env" sid
        "updateState sid CREATE_WORKSPACE (updateState sid SETUP_AVD s0)"] c
    by simp_all
  show ?thesis
  proof (cases r2)
    case (Inl err)
    with create_result [OF c] have "s3 = updateState sid CREATE_WORKSPACE (updateState sid SETUP_AVD s0)"
      by (auto split: option.splits)
    with assms Inr c Inl show ?thesis
      by (auto simp: startSession_setup_def Let_def)
  next
    case (Inr workspace)
    with create_result [OF c] have "workspaces s3 = (workspaces s0)(sid \<mapsto> Map.empty)"
      by (auto split: option.splits)
    with assms \<open>ensureSniaffAvd env = Inr avdSetupResult\<close> c Inr fr show ?thesis
      by (auto simp: startSession_setup_def Let_def)
  qed
qed

lemma start_running:
  assumes "start cfg env options s = (r, s')"
  shows "case r of
       Inl err \<Rightarrow> running s' \<subseteq> running s
     | Inr result \<Rightarrow> spawnExec env = Inr (pid result) \<and> running s' = insert (pid result) (running s)"
  using assms
  by (auto simp: start_def Let_def spawn_def processExited_def isRunning_def
      split: sum.splits prod.splits option.splits if_splits)

lemma launch_cases:
  assumes "startSession_launch cfg env input session workspace s1 = (r, s2)"
  shows "workspaces s2 = workspaces s1 \<and>
    (case r of
       Inl err \<Rightarrow> sessions s2 = sessions s1 \<and> emitted s2 = emitted s1 \<and> running s2 \<subseteq> running s1
     | Inr session' \<Rightarrow>
         emitted s2 = emitted s1 @ [(sessionId session, WAIT_BOOT)]
         \<and> sessionId session' = sessionId session
         \<and> (\<exists>p. emulatorPid session' = Some p \<and> spawnExec env = Inr p
                 \<and> running s2 = insert p (running s1))
         \<and> (\<forall>k. k \<noteq> sessionId session \<longrightarrow> getSession k s2 = getSession k s1))"
proof -
  obtain r0 s0 where st: "start cfg env
             \<lparr>options_avdName = avdName session,
              options_port = input_emulatorPort input,
              options_headless = input_headless input,
              options_logFile = logsDir workspace @ ''/emulator.log''\<rparr> s1 = (r0, s0)"
    by (cases "start cfg env
             \<lparr>options_avdName = avdName session,
              options_port = input_emulatorPort input,
              options_headless = input_headless input,
              options_logFile = logsDir workspace @ ''/emulator.log''\<rparr> s1") auto
  have fr: "sessions s0 = sessions s1" "emitted s0 = emitted s1" "workspaces s0 = workspaces s1"
    "\<And>k. getSession k s0 = getSession k s1"
    using start_frame [of cfg env _ s1] getSession_start [of _ cfg env _ s1] st
    by (metis snd_conv)+
  from start_running [OF st] fr assms st show ?thesis
    by (cases r0) (auto simp: startSession_launch_def Let_def)
qed

lemma updateMeta_result:
  "fst (updateMeta failure sid partial s) = (case failure of Some err \<Rightarrow> Inl err | None \<Rightarrow> Inr ())"
  "workspaces (snd (updateMeta failure sid partial s)) =
     (case failure of
        Some err \<Rightarrow> workspaces s
      | None \<Rightarrow> (workspaces s)
          (sid \<mapsto> (case workspaces s sid of None \<Rightarrow> partial | Some m \<Rightarrow> m ++ partial)))"
  by (simp_all add: updateMeta_def split: option.splits)

lemma ignore_result:
  "(case r of (Inl err, s') \<Rightarrow> s' | (Inr u, s') \<Rightarrow> s') = snd r"
  by (cases r; cases "fst r") auto

lemma finish_cases:
  assumes "startSession_finish cfg env input session info s2 = (r, s3)"
  shows "running s3 = running s2 \<and>
    (\<forall>k. k \<noteq> sessionId session \<longrightarrow> getSession k s3 = getSession k s2 \<and> workspaces s3 k = workspaces s2 k) \<and>
    (case r of
       Inl (err, session') \<Rightarrow>
         sessionId session' = sessionId session \<and> emulatorPid session' = emulatorPid session
         \<and> workspaces s3 = workspaces s2
         \<and> (emitted s3 = emitted s2 \<or> emitted s3 = emitted s2 @ [(sessionId session, READY)])
     | Inr result \<Rightarrow>
         emitted s3 = emitted s2 @ [(sessionId session, READY)])"
proof (cases "fst (waitForBoot cfg env (adbPort session) (input_bootTimeout input) 0)")
  case (Inl err)
  with assms show ?thesis by (auto simp: startSession_finish_def)
next
  case (Inr u)
  define s' where "s' = assignSession (session\<lparr>state := READY\<rparr>) (updateState (sessionId session) READY s2)"
  define partial where "partial = [''sessionId'' \<mapsto> MStr (sessionId session),
                      ''avdName'' \<mapsto> MStr (avdName session),
                      ''emulatorPort'' \<mapsto> MNum (emulatorPort session),
                      ''adbPort'' \<mapsto> MNum (adbPort session),
                      ''createdAt'' \<mapsto> MStr (createdAt session),
                      ''state'' \<mapsto> MState READY,
                      ''workspacePath'' \<mapsto> MStr (workspacePath session)]"
  obtain r3 s3' where u: "updateMeta (persistMeta env) (sessionId session) partial s' = (r3, s3')"
    by (cases "updateMeta (persistMeta env) (sessionId session) partial s'") auto
  have eqs: "s3' = snd (updateMeta (persistMeta env) (sessionId session) partial s')"
    "r3 = fst (updateMeta (persistMeta env) (sessionId session) partial s')"
    using u by simp_all
  have fr: "running s3' = running s2" "emitted s3' = emitted s2 @ [(sessionId session, READY)]"
    "\<And>k. k \<noteq> sessionId session \<Longrightarrow> getSession k s3' = getSession k s2"
    "workspaces s3' = (case persistMeta env of Some err \<Rightarrow> workspaces s2
        | None \<Rightarrow> (workspaces s2)(sessionId session \<mapsto>
             (case workspaces s2 (sessionId session) of None \<Rightarrow> partial | Some m \<Rightarrow> m ++ partial)))"
    "r3 = (case persistMeta env of Some err \<Rightarrow> Inl err | None \<Rightarrow> Inr ())"
    by (simp_all add: eqs updateMeta_result s'_def split: option.splits)
  from assms Inr u have "(r, s3) = (case r3 of Inl err \<Rightarrow> (Inl (err, session\<lparr>state := READY\<rparr>), s3')
     | Inr u \<Rightarrow> (Inr \<lparr>started_sessionId = sessionId session,
                        started_workspacePath = workspacePath session,
                        started_emulatorPort = emulatorPort session,
                        started_adbPort = adbPort session,
                        started_state = READY,
                        avdSetup = info\<rparr>, s3'))"
    by (auto simp: startSession_finish_def Let_def s'_def partial_def split: sum.splits)
  with fr show ?thesis
    by (cases "persistMeta env") auto
qed

lemma rollback_Some:
  "getSession (sessionId session) (rollback env (Some session) s) = None"
  "\<And>k. k \<noteq> sessionId session \<Longrightarrow> getSession k (rollback env (Some session) s) = getSession k s"
  "emitted (rollback env (Some session) s) = emitted s"
  "running (rollback env (Some session) s) =
     (case emulatorPid session of None \<Rightarrow> running s
      | Some p \<Rightarrow> if p = 0 then running s else running s - {p})"
  "workspaces (rollback env (Some session) s) =
     (case rollbackMeta env of
        Some err \<Rightarrow> workspaces s
      | None \<Rightarrow> (workspaces s)(sessionId session \<mapsto>
          (case workspaces s (sessionId session) of
             None \<Rightarrow> [''state'' \<mapsto> MState ERROR]
           | Some m \<Rightarrow> m ++ [''state'' \<mapsto> MState ERROR])))"
  by (simp_all add: rollback_def Let_def ignore_result case_prod_beta updateMeta_result
      split: option.splits)

subsection \<open>A start that fails after the workspace was created\<close>

lemma startSession_unfold:
  "startSession cfg env input sid s0 = (r, s') \<Longrightarrow>
   (\<exists>err s1. startSession_setup cfg env sid s0 = (Inl err, s1)
        \<and> r = Inl (startSession_error err) \<and> s' = s1)
   \<or> (\<exists>session workspace info s1.
        startSession_setup cfg env sid s0 = (Inr (session, workspace, info), s1)
        \<and> ((\<exists>err s2. startSession_launch cfg env input session workspace s1 = (Inl err, s2)
               \<and> r = Inl (startSession_error err) \<and> s' = rollback env (Some session) s2)
           \<or> (\<exists>session' s2. startSession_launch cfg env input session workspace s1 = (Inr session', s2)
               \<and> ((\<exists>err session'' s3.
                      startSession_finish cfg env input session' info s2 = (Inl (err, session''), s3)
                      \<and> r = Inl (startSession_error err) \<and> s' = rollback env (Some session'') s3)
                  \<or> (\<exists>result s3.
                      startSession_finish cfg env input session' info s2 = (Inr result, s3)
                      \<and> r = Inr result \<and> s' = s3)))))"
  by (auto simp: startSession_def rollback_def split: prod.splits sum.splits)

lemma rollback_at:
  assumes "sessionId session = sid"
  shows "getSession sid (rollback env (Some session) s) = None"
    and "\<And>k. k \<noteq> sid \<Longrightarrow> getSession k (rollback env (Some session) s) = getSession k s"
    and "emitted (rollback env (Some session) s) = emitted s"
    and "running (rollback env (Some session) s) =
     (case emulatorPid session of None \<Rightarrow> running s
      | Some p \<Rightarrow> if p = 0 then running s else running s - {p})"
    and "workspaces (rollback env (Some session) s) =
     (case rollbackMeta env of
        Some err \<Rightarrow> workspaces s
      | None \<Rightarrow> (workspaces s)(sid \<mapsto>
          (case workspaces s sid of
             None \<Rightarrow> [''state'' \<mapsto> MState ERROR]
           | Some m \<Rightarrow> m ++ [''state'' \<mapsto> MState ERROR])))"
  using rollback_Some [where session=session and env=env and s=s] assms
  by (auto split: option.splits)

lemma failure_after_setup:
  assumes su: "startSession_setup cfg env sid s0 = (Inr (session, workspace, info), s1)"
    and failed: "startSession cfg env input sid s0 = (Inl err, s')"
  shows "getSession sid s' = None
    \<and> (\<forall>k. k \<noteq> sid \<longrightarrow> getSession k s' = getSession k s0 \<and> workspaces s' k = workspaces s0 k)
    \<and> (spawnExec env \<noteq> Inr 0 \<longrightarrow> running s' \<subseteq> running s0
    \<and> (\<forall>session' s2 p. startSession_launch cfg env input session workspace s1 = (Inr session', s2)
           \<and> emulatorPid session' = Some p \<longrightarrow> \<not> isRunning p s'))
    \<and> readMeta sid ''state'' s' =
         (case rollbackMeta env of None \<Rightarrow> Some (Some (MState ERROR)) | Some e \<Rightarrow> Some None)
    \<and> (\<exists>n. 3 \<le> n \<and> n \<le> 5 \<and> emitted s' = emitted s0 @ map (Pair sid) (take n lifecycle))"
proof -
  from setup_cases [OF su] have s1: "running s1 = running s0"
    "getSession sid s1 = Some session" "sessionId session = sid" "emulatorPid session = None"
    "workspaces s1 = (workspaces s0)(sid \<mapsto> Map.empty)"
    "\<And>k. k \<noteq> sid \<Longrightarrow> getSession k s1 = getSession k s0"
    "emitted s1 = emitted s0 @ [(sid, SETUP_AVD), (sid, CREATE_WORKSPACE), (sid, START_EMULATOR)]"
    by auto
  from startSession_unfold [OF failed] su consider
    (launch) e s2 where "startSession_launch cfg env input session workspace s1 = (Inl e, s2)"
      "s' = rollback env (Some session) s2"
  | (finish) session' s2 e session'' s3 where
      "startSession_launch cfg env input session workspace s1 = (Inr session', s2)"
      "startSession_finish cfg env input session' info s2 = (Inl (e, session''), s3)"
      "s' = rollback env (Some session'') s3"
    by auto
  then show ?thesis
  proof cases
    case launch
    from launch_cases [OF launch(1)] have s2: "workspaces s2 = workspaces s1"
      "sessions s2 = sessions s1" "running s2 \<subseteq> running s1" "emitted s2 = emitted s1"
      by auto
    then have g: "\<And>k. getSession k s2 = getSession k s1" by (simp add: getSession_def)
    note r = rollback_at [OF s1(3), where env=env and s=s2, folded launch(2)]
    from r(1) have c1: "getSession sid s' = None" .
    from r(2) g s1(6) have c2a: "\<And>k. k \<noteq> sid \<Longrightarrow> getSession k s' = getSession k s0" by simp
    from r(5) s2(1) s1(5) have c2b: "\<And>k. k \<noteq> sid \<Longrightarrow> workspaces s' k = workspaces s0 k"
      by (simp split: option.splits)
    from r(4) s1(4) s2(3) s1(1) have c3: "running s' \<subseteq> running s0" by simp
    from launch(1) have c4: "\<forall>session' s2 p. startSession_launch cfg env input session workspace s1 = (Inr session', s2)
           \<and> emulatorPid session' = Some p \<longrightarrow> \<not> isRunning p s'" by simp
    from r(3) s2(4) s1(7) have "emitted s' = emitted s0 @ map (Pair sid) (take 3 lifecycle)"
      by (simp add: lifecycle_def)
    then have c6: "\<exists>n. 3 \<le> n \<and> n \<le> 5 \<and> emitted s' = emitted s0 @ map (Pair sid) (take n lifecycle)"
      by (intro exI [of _ 3]) simp
    from r(5) s2(1) s1(5) have c5: "readMeta sid ''state'' s' =
         (case rollbackMeta env of None \<Rightarrow> Some (Some (MState ERROR)) | Some e \<Rightarrow> Some None)"
      by (simp add: readMeta_def split: option.splits)
    from c1 c2a c2b c3 c4 c5 c6 show ?thesis by blast
  next
    case finish
    from launch_cases [OF finish(1)] s1 obtain p where s2: "workspaces s2 = workspaces s1"
      "sessionId session' = sid" "emulatorPid session' = Some p" "spawnExec env = Inr p"
      "running s2 = insert p (running s1)"
      "\<And>k. k \<noteq> sid \<Longrightarrow> getSession k s2 = getSession k s1"
      "emitted s2 = emitted s1 @ [(sid, WAIT_BOOT)]"
      by auto
    from finish_cases [OF finish(2)] s2 have s3: "running s3 = running s2"
      "\<And>k. k \<noteq> sid \<Longrightarrow> getSession k s3 = getSession k s2"
      "sessionId session'' = sid" "emulatorPid session'' = Some p" "workspaces s3 = workspaces s2"
      "emitted s3 = emitted s2 \<or> emitted s3 = emitted s2 @ [(sid, READY)]"
      by auto
    note r = rollback_at [OF s3(3), where env=env and s=s3, folded finish(3)]
    from r(1) have c1: "getSession sid s' = None" .
    from r(2) s3(2) s2(6) s1(6) have c2a: "\<And>k. k \<noteq> sid \<Longrightarrow> getSession k s' = getSession k s0" by simp
    from r(5) s3(5) s2(1) s1(5) have c2b: "\<And>k. k \<noteq> sid \<Longrightarrow> workspaces s' k = workspaces s0 k"
      by (simp split: option.splits)
    have c34: "running s' \<subseteq> running s0 \<and> (\<forall>session' s2 p. startSession_launch cfg env input session workspace s1 = (Inr session', s2)
           \<and> emulatorPid session' = Some p \<longrightarrow> \<not> isRunning p s')" if "spawnExec env \<noteq> Inr 0"
    proof -
      from that s2 have p: "p \<noteq> 0" by auto
      from r(4) s3(4) p s3(1) s2(5) s1(1) have run: "running s' = running s0 - {p}" by simp
      with finish(1) s2(3) show ?thesis by (auto simp: isRunning_def)
    qed
    from s3(6) r(3) s2(7) s1(7) have "emitted s' = emitted s0 @ map (Pair sid) (take 4 lifecycle)
        \<or> emitted s' = emitted s0 @ map (Pair sid) (take 5 lifecycle)"
      by (auto simp: lifecycle_def)
    then have c6: "\<exists>n. 3 \<le> n \<and> n \<le> 5 \<and> emitted s' = emitted s0 @ map (Pair sid) (take n lifecycle)"
    proof
      assume "emitted s' = emitted s0 @ map (Pair sid) (take 4 lifecycle)"
      then show ?thesis by (intro exI [of _ 4]) simp
    next
      assume "emitted s' = emitted s0 @ map (Pair sid) (take 5 lifecycle)"
      then show ?thesis by (intro exI [of _ 5]) simp
    qed
    from r(5) s3(5) s2(1) s1(5) have c5: "readMeta sid ''state'' s' =
         (case rollbackMeta env of None \<Rightarrow> Some (Some (MState ERROR)) | Some e \<Rightarrow> Some None)"
      by (simp add: readMeta_def split: option.splits)
    from c1 c2a c2b c34 c5 c6 show ?thesis by blast
  qed
qed

text \<open>
  C1, amended. When \<^verbatim>\<open>startSession\<close> fails after it created the workspace (at
  the start of the emulator, at the boot wait or at the final write of the
  metadata), the rollback has run to its end: the registry has no entry for the
  session, so \<^verbatim>\<open>getSession\<close> finds nothing, while the other sessions and
  workspaces are as before; no process runs that did not run before the call, and
  the process the emulator adapter launched is not running; the workspace is still
  there, and its metadata record has the state \<^verbatim>\<open>ERROR\<close> if the write of the
  rollback succeeded, and is as it was (without a state) if that write failed,
  which the rollback ignores. (A process id is positive.)
\<close>

theorem startSession_failure_rollback:
  assumes su: "startSession_setup cfg env sid s0 = (Inr (session, workspace, info), s1)"
    and failed: "startSession cfg env input sid s0 = (Inl err, s')"
    and pidpos: "spawnExec env \<noteq> Inr 0"
  shows "getSession sid s' = None
    \<and> (\<forall>k. k \<noteq> sid \<longrightarrow> getSession k s' = getSession k s0 \<and> workspaces s' k = workspaces s0 k)
    \<and> running s' \<subseteq> running s0
    \<and> (\<forall>session' s2 p. startSession_launch cfg env input session workspace s1 = (Inr session', s2)
           \<and> emulatorPid session' = Some p \<longrightarrow> \<not> isRunning p s')
    \<and> readMeta sid ''state'' s' =
         (case rollbackMeta env of None \<Rightarrow> Some (Some (MState ERROR)) | Some e \<Rightarrow> Some None)"
  using failure_after_setup [OF su failed] pidpos by blast

subsection \<open>The order of the state changes\<close>

lemma setup_Inr_env:
  assumes "startSession_setup cfg env sid s0 = (Inr x, s1)"
  shows "\<exists>a. ensureSniaffAvd env = Inr a \<and> mkdirWorkspace env = None"
  using assms
  by (auto simp: startSession_setup_def Let_def create_def split: sum.splits option.splits)

lemma setup_Inl_env:
  assumes "startSession_setup cfg env sid s0 = (Inl err, s1)"
  shows "(ensureSniaffAvd env = Inl err \<and> emitted s1 = emitted s0 @ [(sid, SETUP_AVD)])
    \<or> ((\<exists>a. ensureSniaffAvd env = Inr a) \<and> mkdirWorkspace env = Some err
        \<and> emitted s1 = emitted s0 @ [(sid, SETUP_AVD), (sid, CREATE_WORKSPACE)])"
  using assms
  by (auto simp: startSession_setup_def Let_def create_def split: sum.splits option.splits)

lemma finish_Inl_env:
  assumes "startSession_finish cfg env input session info s2 = (Inl (err, session'), s3)"
  shows "(fst (waitForBoot cfg env (adbPort session) (input_bootTimeout input) 0) = Inl err
          \<and> emitted s3 = emitted s2)
    \<or> ((\<exists>u. fst (waitForBoot cfg env (adbPort session) (input_bootTimeout input) 0) = Inr u)
        \<and> persistMeta env = Some err
        \<and> emitted s3 = emitted s2 @ [(sessionId session, READY)])"
  using assms
  by (auto simp: startSession_finish_def Let_def updateMeta_def split: sum.splits option.splits)

lemma finish_Inr_env:
  assumes "startSession_finish cfg env input session info s2 = (Inr result, s3)"
  shows "(\<exists>u. fst (waitForBoot cfg env (adbPort session) (input_bootTimeout input) 0) = Inr u)
        \<and> persistMeta env = None"
  using assms
  by (auto simp: startSession_finish_def Let_def updateMeta_def split: sum.splits option.splits)

text \<open>
  C6, amended. The \<^verbatim>\<open>stateChange\<close> events of a \<^verbatim>\<open>startSession\<close> call for
  the states \<^verbatim>\<open>SETUP_AVD\<close>, \<^verbatim>\<open>CREATE_WORKSPACE\<close>, \<^verbatim>\<open>START_EMULATOR\<close>,
  \<^verbatim>\<open>WAIT_BOOT\<close>, \<^verbatim>\<open>READY\<close> carry its session id and come in this order,
  from \<^verbatim>\<open>SETUP_AVD\<close> up to the state in which the call fails: the first when
  the image setup fails, the second when the creation of the workspace fails, the
  third when the start of the emulator fails, the fourth when the boot wait fails,
  and all five when the boot wait succeeds, whether the final write of the metadata
  fails or the call succeeds. A call that fails in one of the first two states has
  no session to mark: registry and workspaces are as before. A call that fails
  later (in \<^verbatim>\<open>START_EMULATOR\<close>, \<^verbatim>\<open>WAIT_BOOT\<close> or \<^verbatim>\<open>READY\<close>) ends with the
  session out of the registry and the state \<^verbatim>\<open>ERROR\<close> in the metadata, if the
  write of the rollback succeeds. An event for \<^verbatim>\<open>ERROR\<close> is neither promised nor
  excluded.
\<close>

theorem startSession_events:
  assumes "startSession cfg env input sid s0 = (r, s')"
  shows "\<exists>evs n. emitted s' = emitted s0 @ evs
    \<and> filter (\<lambda>e. snd e \<noteq> ERROR) evs = map (Pair sid) (take n lifecycle)
    \<and> 1 \<le> n \<and> n \<le> 5
    \<and> (n = 1 \<longleftrightarrow> (\<exists>e. ensureSniaffAvd env = Inl e))
    \<and> (n = 2 \<longleftrightarrow> (\<exists>a e. ensureSniaffAvd env = Inr a \<and> mkdirWorkspace env = Some e))
    \<and> (n = 3 \<longleftrightarrow> (\<exists>session workspace info s1 e s2.
            startSession_setup cfg env sid s0 = (Inr (session, workspace, info), s1)
            \<and> startSession_launch cfg env input session workspace s1 = (Inl e, s2)))
    \<and> (n = 4 \<longleftrightarrow> (\<exists>session workspace info s1 session' s2 e.
            startSession_setup cfg env sid s0 = (Inr (session, workspace, info), s1)
            \<and> startSession_launch cfg env input session workspace s1 = (Inr session', s2)
            \<and> fst (waitForBoot cfg env (adbPort session') (input_bootTimeout input) 0) = Inl e))
    \<and> (n = 5 \<longleftrightarrow> (\<exists>session workspace info s1 session' s2 u.
            startSession_setup cfg env sid s0 = (Inr (session, workspace, info), s1)
            \<and> startSession_launch cfg env input session workspace s1 = (Inr session', s2)
            \<and> fst (waitForBoot cfg env (adbPort session') (input_bootTimeout input) 0) = Inr u))
    \<and> ((\<exists>result. r = Inr result) \<longleftrightarrow> n = 5 \<and> persistMeta env = None)
    \<and> (n < 3 \<longrightarrow> sessions s' = sessions s0 \<and> workspaces s' = workspaces s0)
    \<and> (3 \<le> n \<and> (\<exists>err. r = Inl err) \<longrightarrow>
          getSession sid s' = None
          \<and> (rollbackMeta env = None \<longrightarrow> readMeta sid ''state'' s' = Some (Some (MState ERROR))))"
proof -
  let ?P = "\<lambda>evs n. emitted s' = emitted s0 @ evs
    \<and> filter (\<lambda>e. snd e \<noteq> ERROR) evs = map (Pair sid) (take n lifecycle)
    \<and> 1 \<le> n \<and> n \<le> 5
    \<and> (n = 1 \<longleftrightarrow> (\<exists>e. ensureSniaffAvd env = Inl e))
    \<and> (n = 2 \<longleftrightarrow> (\<exists>a e. ensureSniaffAvd env = Inr a \<and> mkdirWorkspace env = Some e))
    \<and> (n = 3 \<longleftrightarrow> (\<exists>session workspace info s1 e s2.
            startSession_setup cfg env sid s0 = (Inr (session, workspace, info), s1)
            \<and> startSession_launch cfg env input session workspace s1 = (Inl e, s2)))
    \<and> (n = 4 \<longleftrightarrow> (\<exists>session workspace info s1 session' s2 e.
            startSession_setup cfg env sid s0 = (Inr (session, workspace, info), s1)
            \<and> startSession_launch cfg env input session workspace s1 = (Inr session', s2)
            \<and> fst (waitForBoot cfg env (adbPort session') (input_bootTimeout input) 0) = Inl e))
    \<and> (n = 5 \<longleftrightarrow> (\<exists>session workspace info s1 session' s2 u.
            startSession_setup cfg env sid s0 = (Inr (session, workspace, info), s1)
            \<and> startSession_launch cfg env input session workspace s1 = (Inr session', s2)
            \<and> fst (waitForBoot cfg env (adbPort session') (input_bootTimeout input) 0) = Inr u))
    \<and> ((\<exists>result. r = Inr result) \<longleftrightarrow> n = 5 \<and> persistMeta env = None)
    \<and> (n < 3 \<longrightarrow> sessions s' = sessions s0 \<and> workspaces s' = workspaces s0)
    \<and> (3 \<le> n \<and> (\<exists>err. r = Inl err) \<longrightarrow>
          getSession sid s' = None
          \<and> (rollbackMeta env = None \<longrightarrow> readMeta sid ''state'' s' = Some (Some (MState ERROR))))"
  from startSession_unfold [OF assms] consider
    (early) e s1 where "startSession_setup cfg env sid s0 = (Inl e, s1)"
      "r = Inl (startSession_error e)" "s' = s1"
  | (launch) session workspace info s1 e s2 where
      "startSession_setup cfg env sid s0 = (Inr (session, workspace, info), s1)"
      "startSession_launch cfg env input session workspace s1 = (Inl e, s2)"
      "r = Inl (startSession_error e)" "s' = rollback env (Some session) s2"
  | (finish) session workspace info s1 session' s2 e session'' s3 where
      "startSession_setup cfg env sid s0 = (Inr (session, workspace, info), s1)"
      "startSession_launch cfg env input session workspace s1 = (Inr session', s2)"
      "startSession_finish cfg env input session' info s2 = (Inl (e, session''), s3)"
      "r = Inl (startSession_error e)" "s' = rollback env (Some session'') s3"
  | (ok) session workspace info s1 session' s2 result s3 where
      "startSession_setup cfg env sid s0 = (Inr (session, workspace, info), s1)"
      "startSession_launch cfg env input session workspace s1 = (Inr session', s2)"
      "startSession_finish cfg env input session' info s2 = (Inr result, s3)"
      "r = Inr result" "s' = s3"
    by (elim disjE exE conjE) blast+
  then show ?thesis
  proof cases
    case early
    from setup_cases [OF early(1)] have fr:
      "sessions s1 = sessions s0" "workspaces s1 = workspaces s0"
      by auto
    from setup_Inl_env [OF early(1)] show ?thesis
    proof (elim disjE conjE exE)
      assume h: "ensureSniaffAvd env = Inl e" "emitted s1 = emitted s0 @ [(sid, SETUP_AVD)]"
      with early fr have p: "?P [(sid, SETUP_AVD)] 1"
        by (auto simp: lifecycle_def dest: setup_Inr_env)
      then show ?thesis
        by (intro exI [of _ "[(sid, SETUP_AVD)]"] exI [of _ "1::nat"])
    next
      fix a
      assume h: "ensureSniaffAvd env = Inr a" "mkdirWorkspace env = Some e"
        "emitted s1 = emitted s0 @ [(sid, SETUP_AVD), (sid, CREATE_WORKSPACE)]"
      with early fr have p: "?P [(sid, SETUP_AVD), (sid, CREATE_WORKSPACE)] 2"
        by (auto simp: lifecycle_def dest: setup_Inr_env)
      then show ?thesis
        by (intro exI [of _ "[(sid, SETUP_AVD), (sid, CREATE_WORKSPACE)]"] exI [of _ "2::nat"])
    qed
  next
    case launch
    from setup_cases [OF launch(1)] have s1:
      "emitted s1 = emitted s0 @ [(sid, SETUP_AVD), (sid, CREATE_WORKSPACE), (sid, START_EMULATOR)]"
      "sessionId session = sid"
      by auto
    from launch_cases [OF launch(2)] have s2: "emitted s2 = emitted s1" by auto
    from assms launch(3) have f: "startSession cfg env input sid s0 = (Inl (startSession_error e), s')"
      by simp
    from failure_after_setup [OF launch(1) f] have after: "getSession sid s' = None"
      "readMeta sid ''state'' s' =
         (case rollbackMeta env of None \<Rightarrow> Some (Some (MState ERROR)) | Some e \<Rightarrow> Some None)"
      by blast+
    from rollback_at(3) [OF s1(2), of env s2] launch(4) s1(1) s2
    have ev: "emitted s' = emitted s0 @ [(sid, SETUP_AVD), (sid, CREATE_WORKSPACE), (sid, START_EMULATOR)]"
      by simp
    from setup_Inr_env [OF launch(1)] obtain a where env: "ensureSniaffAvd env = Inr a"
      "mkdirWorkspace env = None" by blast
    from ev after env launch(1,2,3)
    have p: "?P [(sid, SETUP_AVD), (sid, CREATE_WORKSPACE), (sid, START_EMULATOR)] 3"
      by (auto simp: lifecycle_def)
      then show ?thesis
        by (intro exI [of _ "[(sid, SETUP_AVD), (sid, CREATE_WORKSPACE), (sid, START_EMULATOR)]"] exI [of _ "3::nat"])
  next
    case finish
    from setup_cases [OF finish(1)] have s1:
      "emitted s1 = emitted s0 @ [(sid, SETUP_AVD), (sid, CREATE_WORKSPACE), (sid, START_EMULATOR)]"
      "sessionId session = sid"
      by auto
    from launch_cases [OF finish(2)] s1 have s2: "emitted s2 = emitted s1 @ [(sid, WAIT_BOOT)]"
      "sessionId session' = sid" by auto
    from finish_cases [OF finish(3)] s2 have s3: "sessionId session'' = sid" by auto
    from assms finish(4) have f: "startSession cfg env input sid s0 = (Inl (startSession_error e), s')"
      by simp
    from failure_after_setup [OF finish(1) f] have after: "getSession sid s' = None"
      "readMeta sid ''state'' s' =
         (case rollbackMeta env of None \<Rightarrow> Some (Some (MState ERROR)) | Some e \<Rightarrow> Some None)"
      by blast+
    from rollback_at(3) [OF s3, of env s3] finish(5) have ev: "emitted s' = emitted s3" by simp
    from setup_Inr_env [OF finish(1)] obtain a where env: "ensureSniaffAvd env = Inr a"
      "mkdirWorkspace env = None" by blast
    from finish_Inl_env [OF finish(3)] show ?thesis
    proof (elim disjE conjE exE)
      assume h: "fst (waitForBoot cfg env (adbPort session') (input_bootTimeout input) 0) = Inl e"
        "emitted s3 = emitted s2"
      with ev s1 s2 after env finish(1,2,4)
      have p: "?P [(sid, SETUP_AVD), (sid, CREATE_WORKSPACE), (sid, START_EMULATOR), (sid, WAIT_BOOT)] 4"
        by (auto simp: lifecycle_def)
      then show ?thesis
        by (intro exI [of _ "[(sid, SETUP_AVD), (sid, CREATE_WORKSPACE), (sid, START_EMULATOR), (sid, WAIT_BOOT)]"] exI [of _ "4::nat"])
    next
      fix u
      assume h: "fst (waitForBoot cfg env (adbPort session') (input_bootTimeout input) 0) = Inr u"
        "persistMeta env = Some e" "emitted s3 = emitted s2 @ [(sessionId session', READY)]"
      with ev s1 s2 after env finish(1,2,4)
      have p: "?P [(sid, SETUP_AVD), (sid, CREATE_WORKSPACE), (sid, START_EMULATOR), (sid, WAIT_BOOT),
                (sid, READY)] 5"
        by (auto simp: lifecycle_def)
      then show ?thesis
        by (intro exI [of _ "[(sid, SETUP_AVD), (sid, CREATE_WORKSPACE), (sid, START_EMULATOR), (sid, WAIT_BOOT), (sid, READY)]"] exI [of _ "5::nat"])
    qed
  next
    case ok
    from setup_cases [OF ok(1)] have s1:
      "emitted s1 = emitted s0 @ [(sid, SETUP_AVD), (sid, CREATE_WORKSPACE), (sid, START_EMULATOR)]"
      "sessionId session = sid"
      by auto
    from launch_cases [OF ok(2)] s1 have s2: "emitted s2 = emitted s1 @ [(sid, WAIT_BOOT)]"
      "sessionId session' = sid" by auto
    from finish_cases [OF ok(3)] s2 have s3: "emitted s3 = emitted s2 @ [(sid, READY)]" by auto
    from setup_Inr_env [OF ok(1)] obtain a where env: "ensureSniaffAvd env = Inr a"
      "mkdirWorkspace env = None" by blast
    from finish_Inr_env [OF ok(3)] obtain u where
      fin: "fst (waitForBoot cfg env (adbPort session') (input_bootTimeout input) 0) = Inr u"
      "persistMeta env = None" by blast
    from ok(1,2,4,5) s1 s2 s3 env fin
    have p: "?P [(sid, SETUP_AVD), (sid, CREATE_WORKSPACE), (sid, START_EMULATOR), (sid, WAIT_BOOT),
                (sid, READY)] 5"
      by (auto simp: lifecycle_def)
      then show ?thesis
        by (intro exI [of _ "[(sid, SETUP_AVD), (sid, CREATE_WORKSPACE), (sid, START_EMULATOR), (sid, WAIT_BOOT), (sid, READY)]"] exI [of _ "5::nat"])
  qed
qed

subsection \<open>Runs of the examples\<close>

lemma start_unknown_image:
  assumes "listAvds env = Inr avds" "options_avdName options \<notin> set avds"
  shows "start cfg env options s = (Inl (SniaffError AVD_NOT_FOUND), s)"
  using assms by (simp add: start_def)

lemma listAvds_other: "listAvds noImageEnv = Inr [''Pixel_7'']"
  by (simp add: listAvds_def noImageEnv_def trim_def isSpace_def)

lemma waitForBoot_neverBoots:
  "waitForBoot exampleConfig neverBootsEnv 5555 5000 0 = (Inl (SniaffError EMULATOR_BOOT_TIMEOUT), 6000)"
  by (simp add: waitForBoot_def waitForDevice_def waitForBoot_deviceId_def stringOfInt_def
      stringOfNat.simps waitForDevice_loop.simps waitForBoot_loop.simps delay_def
      neverBootsEnv_def exampleEnv_polls exampleConfig_fields trim_def isSpace_def)

lemma start_neverBoots:
  "options_avdName options = ''SniaffPhone'' \<Longrightarrow> options_port options = None \<Longrightarrow>
   start exampleConfig neverBootsEnv options s =
     (Inr \<lparr>pid = 4343, consolePort = 5554, result_adbPort = 5555\<rparr>,
      s\<lparr>running := insert 4343 (running s)\<rparr>)"
  by (intro start_example_first) (simp_all add: neverBootsEnv_def exampleEnv_fields exampleEnv_polls)

lemma start_diskFull:
  "options_avdName options = ''SniaffPhone'' \<Longrightarrow> options_port options = None \<Longrightarrow>
   start exampleConfig diskFullEnv options s =
     (Inr \<lparr>pid = 4343, consolePort = 5554, result_adbPort = 5555\<rparr>,
      s\<lparr>running := insert 4343 (running s)\<rparr>)"
  by (intro start_example_first) (simp_all add: diskFullEnv_def exampleEnv_fields exampleEnv_polls)

lemma waitForBoot_diskFull: "0 < timeout \<Longrightarrow> waitForBoot cfg diskFullEnv 5555 timeout 0 = (Inr (), 0)"
  by (intro waitForBoot_example) (simp_all add: diskFullEnv_def exampleEnv_polls)

lemma setupFails_run:
  "fst (startSession exampleConfig setupFailsEnv exampleInput ''sess-b'' exampleWorld)
     = Inl (SniaffError INTERNAL_ERROR)"
  "emitted (snd (startSession exampleConfig setupFailsEnv exampleInput ''sess-b'' exampleWorld))
     = [(''sess-b'', SETUP_AVD)]"
  "sessions (snd (startSession exampleConfig setupFailsEnv exampleInput ''sess-b'' exampleWorld))
     = sessions exampleWorld"
  "workspaces (snd (startSession exampleConfig setupFailsEnv exampleInput ''sess-b'' exampleWorld))
     = workspaces exampleWorld"
  by (simp_all add: setupFailsEnv_def session_defs)

lemma noImage_run:
  "fst (startSession exampleConfig noImageEnv exampleInput ''sess-b'' exampleWorld)
     = Inl (SniaffError AVD_NOT_FOUND)"
  "emitted (snd (startSession exampleConfig noImageEnv exampleInput ''sess-b'' exampleWorld))
     = [(''sess-b'', SETUP_AVD), (''sess-b'', CREATE_WORKSPACE), (''sess-b'', START_EMULATOR)]"
  "readMeta ''sess-b'' ''state'' (snd (startSession exampleConfig noImageEnv exampleInput ''sess-b'' exampleWorld))
     = Some (Some (MState ERROR))"
  by (simp_all add: noImageEnv_def session_defs
      start_unknown_image [OF listAvds_other, unfolded noImageEnv_def])

lemma neverBoots_run:
  "fst (startSession exampleConfig neverBootsEnv shortInput ''sess-b'' exampleWorld)
     = Inl (SniaffError EMULATOR_BOOT_TIMEOUT)"
  "emitted (snd (startSession exampleConfig neverBootsEnv shortInput ''sess-b'' exampleWorld))
     = [(''sess-b'', SETUP_AVD), (''sess-b'', CREATE_WORKSPACE), (''sess-b'', START_EMULATOR), (''sess-b'', WAIT_BOOT)]"
  by (simp_all add: neverBootsEnv_def session_defs start_neverBoots [unfolded neverBootsEnv_def]
      waitForBoot_neverBoots [unfolded neverBootsEnv_def])

lemma diskFull_run:
  "fst (startSession exampleConfig diskFullEnv exampleInput ''sess-b'' exampleWorld)
     = Inl (SniaffError INTERNAL_ERROR)"
  "emitted (snd (startSession exampleConfig diskFullEnv exampleInput ''sess-b'' exampleWorld))
     = [(''sess-b'', SETUP_AVD), (''sess-b'', CREATE_WORKSPACE), (''sess-b'', START_EMULATOR),
        (''sess-b'', WAIT_BOOT), (''sess-b'', READY)]"
  "readMeta ''sess-b'' ''state'' (snd (startSession exampleConfig diskFullEnv exampleInput ''sess-b'' exampleWorld))
     = Some None"
  "getSession ''sess-b'' (snd (startSession exampleConfig diskFullEnv exampleInput ''sess-b'' exampleWorld)) = None"
  by (simp_all add: diskFullEnv_def session_defs start_diskFull [unfolded diskFullEnv_def]
      waitForBoot_diskFull [unfolded diskFullEnv_def])

lemma setup_example:
  "ensureSniaffAvd env = ensureSniaffAvd exampleEnv \<Longrightarrow> mkdirWorkspace env = None \<Longrightarrow>
   \<exists>session workspace info s1.
     startSession_setup exampleConfig env ''sess-b'' exampleWorld = (Inr (session, workspace, info), s1)"
  by (simp add: startSession_setup_def Let_def create_def exampleEnv_fields)

subsection \<open>Examples of failing starts\<close>

text \<open>
  The rollback at work: the device never reports the boot as complete, the start
  fails with the boot timeout after five seconds, and the rollback leaves no entry,
  no new process and the state \<^verbatim>\<open>ERROR\<close> in the metadata.
\<close>

theorem startSession_failure_rollback_witness:
  "fst (startSession exampleConfig neverBootsEnv shortInput ''sess-b'' exampleWorld)
     = Inl (SniaffError EMULATOR_BOOT_TIMEOUT)
   \<and> getSession ''sess-b'' (snd (startSession exampleConfig neverBootsEnv shortInput ''sess-b'' exampleWorld)) = None
   \<and> running (snd (startSession exampleConfig neverBootsEnv shortInput ''sess-b'' exampleWorld))
       \<subseteq> running exampleWorld
   \<and> readMeta ''sess-b'' ''state'' (snd (startSession exampleConfig neverBootsEnv shortInput ''sess-b'' exampleWorld))
       = Some (Some (MState ERROR))"
proof -
  define run where "run = startSession exampleConfig neverBootsEnv shortInput ''sess-b'' exampleWorld"
  have f: "fst run = Inl (SniaffError EMULATOR_BOOT_TIMEOUT)"
    by (simp add: run_def neverBoots_run)
  then have failed: "startSession exampleConfig neverBootsEnv shortInput ''sess-b'' exampleWorld
      = (Inl (SniaffError EMULATOR_BOOT_TIMEOUT), snd run)"
    unfolding run_def by (metis prod.collapse)
  have env: "ensureSniaffAvd neverBootsEnv = ensureSniaffAvd exampleEnv"
    "mkdirWorkspace neverBootsEnv = None" "spawnExec neverBootsEnv \<noteq> Inr 0"
    "rollbackMeta neverBootsEnv = None"
    by (simp_all add: neverBootsEnv_def exampleEnv_fields)
  from setup_example [OF env(1,2)] obtain session workspace info s1 where
    su: "startSession_setup exampleConfig neverBootsEnv ''sess-b'' exampleWorld
          = (Inr (session, workspace, info), s1)"
    by blast
  from startSession_failure_rollback [OF su failed env(3)] env(4) f show ?thesis
    by (simp add: run_def)
qed

text \<open>
  C1 as stated fails when the disk is full: the final write of the metadata fails
  after \<^verbatim>\<open>READY\<close>, the start fails, the write of the rollback fails as well
  and is ignored, and the metadata record of the workspace has no state at all,
  not the \<^verbatim>\<open>ERROR\<close> marker.
\<close>

theorem startSession_rollback_meta_counterexample:
  "fst (startSession exampleConfig diskFullEnv exampleInput ''sess-b'' exampleWorld)
     = Inl (SniaffError INTERNAL_ERROR)
   \<and> emitted (snd (startSession exampleConfig diskFullEnv exampleInput ''sess-b'' exampleWorld))
     = [(''sess-b'', SETUP_AVD), (''sess-b'', CREATE_WORKSPACE), (''sess-b'', START_EMULATOR),
        (''sess-b'', WAIT_BOOT), (''sess-b'', READY)]
   \<and> readMeta ''sess-b'' ''state''
        (snd (startSession exampleConfig diskFullEnv exampleInput ''sess-b'' exampleWorld))
     = Some None"
  by (simp add: diskFull_run)

text \<open>
  The events of the start that fails at the boot wait: four states, then the
  session leaves the registry with \<^verbatim>\<open>ERROR\<close> in its metadata.
\<close>

theorem startSession_events_witness:
  "fst (startSession exampleConfig neverBootsEnv shortInput ''sess-b'' exampleWorld)
     = Inl (SniaffError EMULATOR_BOOT_TIMEOUT)
   \<and> emitted (snd (startSession exampleConfig neverBootsEnv shortInput ''sess-b'' exampleWorld))
     = map (Pair ''sess-b'') (take 4 lifecycle)
   \<and> getSession ''sess-b'' (snd (startSession exampleConfig neverBootsEnv shortInput ''sess-b'' exampleWorld)) = None
   \<and> readMeta ''sess-b'' ''state'' (snd (startSession exampleConfig neverBootsEnv shortInput ''sess-b'' exampleWorld))
       = Some (Some (MState ERROR))"
proof -
  define run where "run = startSession exampleConfig neverBootsEnv shortInput ''sess-b'' exampleWorld"
  have f: "fst run = Inl (SniaffError EMULATOR_BOOT_TIMEOUT)"
    and e: "emitted (snd run) = map (Pair ''sess-b'') (take 4 lifecycle)"
    by (simp_all add: run_def neverBoots_run lifecycle_def)
  have r: "rollbackMeta neverBootsEnv = None" "emitted exampleWorld = []"
    by (simp_all add: neverBootsEnv_def exampleEnv_fields exampleWorld_def)
  have "startSession exampleConfig neverBootsEnv shortInput ''sess-b'' exampleWorld = (fst run, snd run)"
    by (simp add: run_def)
  from startSession_events [OF this] obtain evs where
    "\<exists>n. emitted (snd run) = emitted exampleWorld @ evs
      \<and> filter (\<lambda>e. snd e \<noteq> ERROR) evs = map (Pair ''sess-b'') (take n lifecycle)
      \<and> 1 \<le> n \<and> n \<le> 5
      \<and> (n = 1 \<longleftrightarrow> (\<exists>e. ensureSniaffAvd neverBootsEnv = Inl e))
      \<and> (n = 2 \<longleftrightarrow> (\<exists>a e. ensureSniaffAvd neverBootsEnv = Inr a \<and> mkdirWorkspace neverBootsEnv = Some e))
      \<and> (n = 3 \<longleftrightarrow> (\<exists>session workspace info s1 e s2.
            startSession_setup exampleConfig neverBootsEnv ''sess-b'' exampleWorld
              = (Inr (session, workspace, info), s1)
            \<and> startSession_launch exampleConfig neverBootsEnv shortInput session workspace s1 = (Inl e, s2)))
      \<and> (n = 4 \<longleftrightarrow> (\<exists>session workspace info s1 session' s2 e.
            startSession_setup exampleConfig neverBootsEnv ''sess-b'' exampleWorld
              = (Inr (session, workspace, info), s1)
            \<and> startSession_launch exampleConfig neverBootsEnv shortInput session workspace s1 = (Inr session', s2)
            \<and> fst (waitForBoot exampleConfig neverBootsEnv (adbPort session') (input_bootTimeout shortInput) 0) = Inl e))
      \<and> (n = 5 \<longleftrightarrow> (\<exists>session workspace info s1 session' s2 u.
            startSession_setup exampleConfig neverBootsEnv ''sess-b'' exampleWorld
              = (Inr (session, workspace, info), s1)
            \<and> startSession_launch exampleConfig neverBootsEnv shortInput session workspace s1 = (Inr session', s2)
            \<and> fst (waitForBoot exampleConfig neverBootsEnv (adbPort session') (input_bootTimeout shortInput) 0) = Inr u))
      \<and> ((\<exists>result. fst run = Inr result) \<longleftrightarrow> n = 5 \<and> persistMeta neverBootsEnv = None)
      \<and> (n < 3 \<longrightarrow> sessions (snd run) = sessions exampleWorld \<and> workspaces (snd run) = workspaces exampleWorld)
      \<and> (3 \<le> n \<and> (\<exists>err. fst run = Inl err) \<longrightarrow>
            getSession ''sess-b'' (snd run) = None
            \<and> (rollbackMeta neverBootsEnv = None \<longrightarrow>
                 readMeta ''sess-b'' ''state'' (snd run) = Some (Some (MState ERROR))))" ..
  then obtain n where w:
    "emitted (snd run) = emitted exampleWorld @ evs
      \<and> filter (\<lambda>e. snd e \<noteq> ERROR) evs = map (Pair ''sess-b'') (take n lifecycle)
      \<and> 1 \<le> n \<and> n \<le> 5
      \<and> (n = 1 \<longleftrightarrow> (\<exists>e. ensureSniaffAvd neverBootsEnv = Inl e))
      \<and> (n = 2 \<longleftrightarrow> (\<exists>a e. ensureSniaffAvd neverBootsEnv = Inr a \<and> mkdirWorkspace neverBootsEnv = Some e))
      \<and> (n = 3 \<longleftrightarrow> (\<exists>session workspace info s1 e s2.
            startSession_setup exampleConfig neverBootsEnv ''sess-b'' exampleWorld
              = (Inr (session, workspace, info), s1)
            \<and> startSession_launch exampleConfig neverBootsEnv shortInput session workspace s1 = (Inl e, s2)))
      \<and> (n = 4 \<longleftrightarrow> (\<exists>session workspace info s1 session' s2 e.
            startSession_setup exampleConfig neverBootsEnv ''sess-b'' exampleWorld
              = (Inr (session, workspace, info), s1)
            \<and> startSession_launch exampleConfig neverBootsEnv shortInput session workspace s1 = (Inr session', s2)
            \<and> fst (waitForBoot exampleConfig neverBootsEnv (adbPort session') (input_bootTimeout shortInput) 0) = Inl e))
      \<and> (n = 5 \<longleftrightarrow> (\<exists>session workspace info s1 session' s2 u.
            startSession_setup exampleConfig neverBootsEnv ''sess-b'' exampleWorld
              = (Inr (session, workspace, info), s1)
            \<and> startSession_launch exampleConfig neverBootsEnv shortInput session workspace s1 = (Inr session', s2)
            \<and> fst (waitForBoot exampleConfig neverBootsEnv (adbPort session') (input_bootTimeout shortInput) 0) = Inr u))
      \<and> ((\<exists>result. fst run = Inr result) \<longleftrightarrow> n = 5 \<and> persistMeta neverBootsEnv = None)
      \<and> (n < 3 \<longrightarrow> sessions (snd run) = sessions exampleWorld \<and> workspaces (snd run) = workspaces exampleWorld)
      \<and> (3 \<le> n \<and> (\<exists>err. fst run = Inl err) \<longrightarrow>
            getSession ''sess-b'' (snd run) = None
            \<and> (rollbackMeta neverBootsEnv = None \<longrightarrow>
                 readMeta ''sess-b'' ''state'' (snd run) = Some (Some (MState ERROR))))" ..
  note n1 = w [THEN conjunct1]
  note n2 = w [THEN conjunct2, THEN conjunct1]
  note n3 = w [THEN conjunct2, THEN conjunct2, THEN conjunct2, THEN conjunct2, THEN conjunct2,
      THEN conjunct2, THEN conjunct2, THEN conjunct2, THEN conjunct2, THEN conjunct2, THEN conjunct2]
  from n1 e r(2) have evs: "evs = map (Pair ''sess-b'') (take 4 lifecycle)" by simp
  have "length (filter (\<lambda>e. snd e \<noteq> ERROR) evs) = 4"
    unfolding evs by (simp add: lifecycle_def)
  with n2 have "length (take n lifecycle) = 4" by simp
  then have "3 \<le> n" by (simp add: lifecycle_def)
  with n3 f r(1) e show ?thesis by (simp add: run_def)
qed

text \<open>
  C6 as stated fails: \<^verbatim>\<open>ERROR\<close> is not reachable from the first two states.
  When the image setup fails, the call fails in \<^verbatim>\<open>SETUP_AVD\<close>, and \<^verbatim>\<open>rollback\<close>
  returns at once, for there is no session yet: the registry and the disk are as
  before, and neither a session nor a metadata record under the id of the call
  has the state \<^verbatim>\<open>ERROR\<close>.
\<close>

theorem startSession_error_counterexample:
  "fst (startSession exampleConfig setupFailsEnv exampleInput ''sess-b'' exampleWorld)
     = Inl (SniaffError INTERNAL_ERROR)
   \<and> emitted (snd (startSession exampleConfig setupFailsEnv exampleInput ''sess-b'' exampleWorld))
     = [(''sess-b'', SETUP_AVD)]
   \<and> sessions (snd (startSession exampleConfig setupFailsEnv exampleInput ''sess-b'' exampleWorld))
     = sessions exampleWorld
   \<and> workspaces (snd (startSession exampleConfig setupFailsEnv exampleInput ''sess-b'' exampleWorld))
     = workspaces exampleWorld
   \<and> getSession ''sess-b''
        (snd (startSession exampleConfig setupFailsEnv exampleInput ''sess-b'' exampleWorld)) = None
   \<and> readMeta ''sess-b'' ''state''
        (snd (startSession exampleConfig setupFailsEnv exampleInput ''sess-b'' exampleWorld)) = None"
proof -
  let ?s = "snd (startSession exampleConfig setupFailsEnv exampleInput ''sess-b'' exampleWorld)"
  have "getSession ''sess-b'' ?s = None"
    unfolding getSession_def setupFails_run(3) by (simp add: exampleWorld_def)
  moreover have "readMeta ''sess-b'' ''state'' ?s = None"
    unfolding readMeta_def setupFails_run(4) by (simp add: exampleWorld_def)
  ultimately show ?thesis by (simp add: setupFails_run)
qed

subsection \<open>The boot wait when the device never boots\<close>

lemma delay_eq: "delay ms now = now + delay ms 0"
  by (simp add: delay_def)

lemma pollDelay_pos: "1 \<le> pollDelay cfg"
  by (simp add: pollDelay_def delay_def)

lemma waitForDevice_loop_bound:
  assumes "\<forall>i. fst (adbDevicesExec env i) \<le> D"
    and "now \<le> startTime + max 0 timeout + int D + 1000"
  shows "snd (waitForDevice_loop env deviceId timeout startTime i now)
           \<le> startTime + max 0 timeout + int D + 1000
         \<and> (\<forall>u. fst (waitForDevice_loop env deviceId timeout startTime i now) = Inr u \<longrightarrow>
               snd (waitForDevice_loop env deviceId timeout startTime i now)
                 \<le> startTime + max 0 timeout + int D)
         \<and> (fst (waitForDevice_loop env deviceId timeout startTime i now) = Inl (SniaffError EMULATOR_BOOT_TIMEOUT)
            \<or> (fst (waitForDevice_loop env deviceId timeout startTime i now) = Inl (SniaffError ADB_NOT_FOUND)
                \<and> (\<exists>j err. snd (adbDevicesExec env j) = Inl err \<and> isENOENT err))
            \<or> fst (waitForDevice_loop env deviceId timeout startTime i now) = Inr ())"
  using assms
proof (induction env deviceId timeout startTime i now rule: waitForDevice_loop.induct)
  case (1 env deviceId timeout startTime i now)
  show ?case
  proof (cases "now - startTime < timeout")
    case False
    with "1.prems"(2) show ?thesis
      by (simp add: waitForDevice_loop.simps [of env deviceId timeout startTime i now])
  next
    case True
    obtain d r where dr: "adbDevicesExec env i = (d, r)" by (cases "adbDevicesExec env i") auto
    with "1.prems"(1) have d: "d \<le> D" by (metis fst_conv)
    from True d have within: "now + int d \<le> startTime + max 0 timeout + int D"
      "now + int d \<le> startTime + max 0 timeout + int D + 1000"
      by linarith+
    from True d have next_ok: "delay 1000 (now + int d) \<le> startTime + max 0 timeout + int D + 1000"
      by (simp add: delay_def)
    show ?thesis
    proof (cases r)
      case (Inr stdout)
      show ?thesis
      proof (cases "includes_str stdout deviceId")
        case True
        with \<open>now - startTime < timeout\<close> dr Inr within show ?thesis
          by (simp add: waitForDevice_loop.simps [of env deviceId timeout startTime i now])
      next
        case False
        from "1.IH"(2) [OF \<open>now - startTime < timeout\<close> dr [symmetric] Inr False "1.prems"(1) next_ok]
          \<open>now - startTime < timeout\<close> dr Inr False
        show ?thesis
          by (simp add: waitForDevice_loop.simps [of env deviceId timeout startTime i now])
      qed
    next
      case (Inl err)
      show ?thesis
      proof (cases "isENOENT err")
        case True
        with \<open>now - startTime < timeout\<close> dr Inl d have
          "waitForDevice_loop env deviceId timeout startTime i now = (Inl (SniaffError ADB_NOT_FOUND), now + int d)"
          by (simp add: waitForDevice_loop.simps [of env deviceId timeout startTime i now])
        moreover have "\<exists>j err. snd (adbDevicesExec env j) = Inl err \<and> isENOENT err"
          using dr Inl True by (metis snd_conv)
        ultimately show ?thesis using within by simp
      next
        case False
        from "1.IH"(1) [OF \<open>now - startTime < timeout\<close> dr [symmetric] Inl False "1.prems"(1) next_ok]
          \<open>now - startTime < timeout\<close> dr Inl False
        show ?thesis
          by (simp add: waitForDevice_loop.simps [of env deviceId timeout startTime i now])
      qed
    qed
  qed
qed


lemma waitForBoot_loop_bound:
  assumes "neverBoots env" and "\<forall>i. fst (getpropExec env i) \<le> D"
    and "now \<le> startTime + max 0 timeout + int D + pollDelay cfg"
  shows "fst (waitForBoot_loop cfg env timeout startTime i now) = Inl (SniaffError EMULATOR_BOOT_TIMEOUT)
    \<and> snd (waitForBoot_loop cfg env timeout startTime i now)
         \<le> startTime + max 0 timeout + int D + pollDelay cfg"
  using assms
proof (induction cfg env timeout startTime i now rule: waitForBoot_loop.induct)
  case (1 cfg env timeout startTime i now)
  show ?case
  proof (cases "now - startTime < timeout")
    case False
    with "1.prems"(3) show ?thesis
      by (simp add: waitForBoot_loop.simps [of cfg env timeout startTime i now])
  next
    case True
    obtain d r where dr: "getpropExec env i = (d, r)" by (cases "getpropExec env i") auto
    with "1.prems"(2) have d: "d \<le> D" by (metis fst_conv)
    from True d have next_ok:
      "delay (bootPollInterval cfg) (now + int d) \<le> startTime + max 0 timeout + int D + pollDelay cfg"
      using delay_eq [of "bootPollInterval cfg" "now + int d"] by (simp add: pollDelay_def)
    show ?thesis
    proof (cases r)
      case (Inr stdout)
      with "1.prems"(1) dr have nb: "trim stdout \<noteq> ''1''"
        unfolding neverBoots_def by (metis snd_conv)
      from "1.IH"(2) [OF True dr [symmetric] Inr nb "1.prems"(1,2) next_ok] True dr Inr nb
      show ?thesis
        by (simp add: waitForBoot_loop.simps [of cfg env timeout startTime i now])
    next
      case (Inl err)
      from "1.IH"(1) [OF True dr [symmetric] Inl "1.prems"(1,2) next_ok] True dr Inl
      show ?thesis
        by (simp add: waitForBoot_loop.simps [of cfg env timeout startTime i now])
    qed
  qed
qed

text \<open>
  C5, amended. If the device never reports the boot as complete and every command
  takes at most \<open>D\<close> milliseconds, \<^verbatim>\<open>waitForBoot\<close> fails: with
  \<^verbatim>\<open>EMULATOR_BOOT_TIMEOUT\<close>, or with \<^verbatim>\<open>ADB_NOT_FOUND\<close> when a run of
  \<^verbatim>\<open>adb devices\<close> fails with \<^verbatim>\<open>ENOENT\<close>; and it fails no later than the
  timeout (if positive), plus \<open>D\<close>, plus the longer of the two poll delays (the fixed
  1000 milliseconds of the device phase, the configured interval of the boot
  phase) after the call. Both phases compare the clock with the time of the call
  plus the timeout: when the device phase succeeds at or after that deadline, the
  boot phase runs no poll and the call fails at that very time.
\<close>

theorem waitForBoot_timeout:
  assumes "neverBoots env"
    and "\<forall>i. fst (adbDevicesExec env i) \<le> D \<and> fst (getpropExec env i) \<le> D"
  shows "\<exists>e t. waitForBoot cfg env port timeout now = (Inl (SniaffError e), t)
    \<and> (e = EMULATOR_BOOT_TIMEOUT
        \<or> e = ADB_NOT_FOUND \<and> (\<exists>j err. snd (adbDevicesExec env j) = Inl err \<and> isENOENT err))
    \<and> t \<le> now + max 0 timeout + int D + max 1000 (pollDelay cfg)
    \<and> (\<forall>u t1. waitForDevice env (waitForBoot_deviceId port) timeout now = (Inr u, t1)
            \<and> now + timeout \<le> t1 \<longrightarrow> t = t1)"
proof -
  from assms(2) have D1: "\<forall>i. fst (adbDevicesExec env i) \<le> D"
    and D2: "\<forall>i. fst (getpropExec env i) \<le> D" by simp_all
  obtain r1 t1 where w: "waitForDevice env (waitForBoot_deviceId port) timeout now = (r1, t1)"
    by (cases "waitForDevice env (waitForBoot_deviceId port) timeout now") auto
  have "now \<le> now + max 0 timeout + int D + 1000" by simp
  from waitForDevice_loop_bound [OF D1 this, of "waitForBoot_deviceId port" 0] w
  have p1: "t1 \<le> now + max 0 timeout + int D + 1000"
    "\<And>u. r1 = Inr u \<Longrightarrow> t1 \<le> now + max 0 timeout + int D"
    "r1 = Inl (SniaffError EMULATOR_BOOT_TIMEOUT)
     \<or> (r1 = Inl (SniaffError ADB_NOT_FOUND) \<and> (\<exists>j err. snd (adbDevicesExec env j) = Inl err \<and> isENOENT err))
     \<or> r1 = Inr ()"
    by (simp_all add: waitForDevice_def)
  show ?thesis
  proof (cases r1)
    case (Inl err)
    with w have wb: "waitForBoot cfg env port timeout now = (r1, t1)"
      by (simp add: waitForBoot_def)
    from p1(1) have bound: "t1 \<le> now + max 0 timeout + int D + max 1000 (pollDelay cfg)"
      by linarith
    from p1(3) show ?thesis
    proof (elim disjE conjE)
      assume "r1 = Inl (SniaffError EMULATOR_BOOT_TIMEOUT)"
      with wb bound w show ?thesis
        by (intro exI [of _ EMULATOR_BOOT_TIMEOUT] exI [of _ t1]) simp
    next
      assume "r1 = Inl (SniaffError ADB_NOT_FOUND)"
        and "\<exists>j err. snd (adbDevicesExec env j) = Inl err \<and> isENOENT err"
      with wb bound w show ?thesis
        by (intro exI [of _ ADB_NOT_FOUND] exI [of _ t1]) simp
    next
      assume "r1 = Inr ()"
      with Inl show ?thesis by simp
    qed
  next
    case (Inr u)
    with w have eq: "waitForBoot cfg env port timeout now = waitForBoot_loop cfg env timeout now 0 t1"
      by (simp add: waitForBoot_def)
    from p1(2) [OF Inr] pollDelay_pos [of cfg]
    have "t1 \<le> now + max 0 timeout + int D + pollDelay cfg" by linarith
    from waitForBoot_loop_bound [OF assms(1) D2 this, of 0] eq
    have l: "fst (waitForBoot cfg env port timeout now) = Inl (SniaffError EMULATOR_BOOT_TIMEOUT)"
      "snd (waitForBoot cfg env port timeout now) \<le> now + max 0 timeout + int D + pollDelay cfg"
      by simp_all
    from l(2) have "snd (waitForBoot cfg env port timeout now)
        \<le> now + max 0 timeout + int D + max 1000 (pollDelay cfg)"
      by linarith
    moreover have "now + timeout \<le> t1 \<Longrightarrow> snd (waitForBoot cfg env port timeout now) = t1"
      using eq by (simp add: waitForBoot_loop.simps [of cfg env timeout now 0 t1])
    ultimately show ?thesis
      using l(1) w Inr
      by (intro exI [of _ EMULATOR_BOOT_TIMEOUT] exI [of _ "snd (waitForBoot cfg env port timeout now)"])
         (simp add: prod_eq_iff)
  qed
qed

lemmas boot_defs = waitForBoot_def waitForDevice_def waitForBoot_deviceId_def stringOfInt_def
  stringOfNat.simps waitForDevice_loop.simps waitForBoot_loop.simps delay_def Let_def

lemma neverBoots_examples:
  "neverBoots slowAdbEnv" "neverBoots noDeviceEnv" "neverBoots noAdbEnv" "neverBoots neverBootsEnv"
  by (simp_all add: neverBoots_def slowAdbEnv_def noDeviceEnv_def noAdbEnv_def neverBootsEnv_def trim_def isSpace_def)

theorem waitForBoot_timeout_witness:
  "neverBoots neverBootsEnv
   \<and> waitForBoot exampleConfig neverBootsEnv 5555 5000 0 = (Inl (SniaffError EMULATOR_BOOT_TIMEOUT), 6000)
   \<and> (6000::int) \<le> 0 + max 0 5000 + int 0 + max 1000 (pollDelay exampleConfig)"
  using waitForBoot_timeout [of neverBootsEnv 0 exampleConfig 5555 5000 0]
  by (simp add: neverBoots_examples)
     (simp add: boot_defs neverBootsEnv_def exampleEnv_def exampleConfig_def pollDelay_def trim_def isSpace_def)

text \<open>
  C5 as stated fails in three ways. With the default poll interval of 2000 and an
  \<^verbatim>\<open>adb devices\<close> that takes three seconds, a timeout of 100 expires at 4000. With
  a poll interval of 500 and commands that take no time, the device phase still
  sleeps its fixed second and a timeout of 100 expires at 1000. With a missing
  \<^verbatim>\<open>adb\<close> binary the error is \<^verbatim>\<open>ADB_NOT_FOUND\<close>, not the boot timeout.
\<close>

theorem waitForBoot_timeout_counterexample:
  "neverBoots slowAdbEnv
   \<and> waitForBoot exampleConfig slowAdbEnv 5555 100 0 = (Inl (SniaffError EMULATOR_BOOT_TIMEOUT), 4000)
   \<and> \<not> (4000 \<le> 0 + 100 + bootPollInterval exampleConfig)
   \<and> neverBoots noDeviceEnv
   \<and> waitForBoot (exampleConfig\<lparr>bootPollInterval := 500\<rparr>) noDeviceEnv 5555 100 0
        = (Inl (SniaffError EMULATOR_BOOT_TIMEOUT), 1000)
   \<and> \<not> ((1000::int) \<le> 0 + 100 + 500)
   \<and> neverBoots noAdbEnv
   \<and> waitForBoot exampleConfig noAdbEnv 5555 100 0 = (Inl (SniaffError ADB_NOT_FOUND), 0)"
  by (simp add: neverBoots_examples)
     (simp add: boot_defs slowAdbEnv_def noDeviceEnv_def noAdbEnv_def exampleConfig_def)

subsection \<open>Ports of the sessions of the registry\<close>

lemma update_entry:
  "(a, b) \<in> set (AList.update k v al) \<Longrightarrow> (a, b) = (k, v) \<or> (a, b) \<in> set al"
  by (induction al) (auto split: if_splits)

lemma delete_entry: "(a, b) \<in> set (AList.delete k al) \<Longrightarrow> (a, b) \<in> set al"
  by (simp add: AList.delete_eq)

lemma assignSession_entry:
  "(a, b) \<in> set (sessions (assignSession x s)) \<Longrightarrow> (a, b) = (sessionId x, x) \<or> (a, b) \<in> set (sessions s)"
  by (auto simp: assignSession_def setSession_def dest: update_entry split: option.splits)

lemma foundBy_ports:
  assumes "foundBy c port"
  shows "even port \<and> port \<le> 5682"
  using assms findAvailableEven_first unfolding foundBy_def by blast

lemma foundBy_I:
  "findAvailableEven (portAvailable (call_env c))
     (roundUpEven (requestedPort (call_config c) options)) 5682 = Inr port
   \<Longrightarrow> options_port options = input_emulatorPort (call_input c) \<Longrightarrow> foundBy c port"
  by (auto simp: foundBy_def)

lemma catch_Some:
  assumes "startSession_catch (Some session) err s = (w, s')"
  shows "s' = assignSession (session\<lparr>state := ERROR\<rparr>) s
    \<and> (w = AwaitRollbackMeta (session\<lparr>state := ERROR\<rparr>) err
       \<or> (\<exists>p. w = AwaitRollbackStop (session\<lparr>state := ERROR\<rparr>) err p))"
  using assms by (auto simp: startSession_catch_def Let_def split: option.splits if_splits)

lemma catch_None: "startSession_catch None err s = (StartReturned (Inl (startSession_error err)), s)"
  by (simp add: startSession_catch_def)

lemma localOk_state [simp]: "localOk c sid (x\<lparr>state := st\<rparr>) = localOk c sid x"
  by (simp add: localOk_def placeholderPorts_def givenPorts_def)

lemma placeholderPorts_state [simp]: "placeholderPorts (x\<lparr>state := st\<rparr>) = placeholderPorts x"
  by (simp add: placeholderPorts_def)

lemma localOk_id: "localOk c sid x \<Longrightarrow> sessionId x = sid"
  by (simp add: localOk_def)

lemma placeholder_localOk: "sessionId x = sid \<Longrightarrow> placeholderPorts x \<Longrightarrow> localOk c sid x"
  by (simp add: localOk_def)

text \<open>One step of a call: what it waits for next, and the entries of the registry.\<close>

lemma resume_ok:
  assumes r: "startSession_resume (call_config c) (call_env c) (call_input c) sid w s = (w', s')"
    and ok: "waitOk c sid w"
  shows "waitOk c sid w'
    \<and> (\<forall>k x. (k, x) \<in> set (sessions s') \<longrightarrow> (k, x) \<in> set (sessions s) \<or> (k = sid \<and> localOk c sid x))"
proof (cases w)
  case AwaitEnsureAvd
  with r show ?thesis
    by (auto simp: catch_None split: sum.splits)
next
  case (AwaitCreate a)
  with r show ?thesis
    by (auto simp: catch_None Let_def create_def setSession_def placeholderPorts_def localOk_def
        dest!: assignSession_entry update_entry split: sum.splits prod.splits option.splits)
next
  case (AwaitListAvds session workspace info)
  with r ok show ?thesis
    by (auto simp: placeholder_localOk dest!: catch_Some assignSession_entry
        split: sum.splits if_splits)
next
  case (AwaitFindPort session workspace info)
  with r ok show ?thesis
    by (auto simp: placeholder_localOk dest!: catch_Some assignSession_entry
        intro!: foundBy_I split: sum.splits option.splits)
next
  case (AwaitSpawn session info port)
  with r ok show ?thesis
    by (auto simp: placeholder_localOk spawn_def dest!: catch_Some assignSession_entry
        split: sum.splits prod.splits)
next
  case (AwaitSettle session info port p)
  with ok have "even port" "port \<le> 5682" by (auto dest: foundBy_ports)
  with AwaitSettle r ok show ?thesis
    by (auto simp: placeholder_localOk Let_def localOk_def givenPorts_def processExited_def
        dest!: catch_Some assignSession_entry
        split: sum.splits prod.splits if_splits)
next
  case (AwaitBoot session info)
  with ok have "sessionId session = sid" by (simp add: localOk_id)
  with AwaitBoot r ok show ?thesis
    by (auto simp: Let_def dest!: catch_Some assignSession_entry split: sum.splits)
next
  case (AwaitPersist session info)
  with ok have "sessionId session = sid" by (simp add: localOk_id)
  with AwaitPersist r ok show ?thesis
    by (auto simp: updateMeta_def dest!: catch_Some assignSession_entry
        split: sum.splits prod.splits option.splits)
next
  case (AwaitRollbackStop session err p)
  with r ok show ?thesis
    by (auto simp: stop_def kill_def split: sum.splits prod.splits)
next
  case (AwaitRollbackMeta session err)
  with ok have "sessionId session = sid" by (simp add: localOk_id)
  with AwaitRollbackMeta r ok show ?thesis
    by (auto simp: updateMeta_def deleteSession_def dest!: delete_entry
        split: sum.splits prod.splits option.splits)
next
  case (StartReturned x)
  with r show ?thesis by auto
qed

lemma stop_resume_entries:
  assumes "stopSession_resume sid w s = (w', s')"
  shows "(k, x) \<in> set (sessions s') \<Longrightarrow> (k, x) \<in> set (sessions s)"
  using assms
  by (cases w) (auto simp: stop_def kill_def cleanup_def deleteSession_def dest!: delete_entry
      split: sum.splits prod.splits)

lemma applyStep_inv:
  assumes "applyStep x m = Some m'" and inv: "managerInv m"
  shows "managerInv m'"
proof (cases x)
  case (CallStart cfg env input sid)
  with assms(1) have new: "starts m sid = None"
    and m': "m' = m\<lparr>shared := updateState sid SETUP_AVD (shared m),
                starts := (starts m)(sid \<mapsto>
                  \<lparr>call_config = cfg, call_env = env, call_input = input,
                   call_wait = AwaitEnsureAvd\<rparr>)\<rparr>"
    by (auto simp: freshSessionId_def split: if_splits)
  show ?thesis
    unfolding managerInv_def
  proof (intro conjI allI impI)
    fix k x assume "(k, x) \<in> set (sessions (shared m'))"
    then have "(k, x) \<in> set (sessions (shared m))" by (simp add: m')
    with inv obtain c where c: "starts m k = Some c" "localOk c k x"
      unfolding managerInv_def by blast
    with new have "k \<noteq> sid" by auto
    with c show "\<exists>c. starts m' k = Some c \<and> localOk c k x" by (simp add: m')
  next
    fix k c assume "starts m' k = Some c"
    with inv show "waitOk c k (call_wait c)"
      unfolding managerInv_def m' by (auto split: if_splits)
  qed
next
  case (ResumeStart sid)
  with assms(1) obtain c w s where c: "starts m sid = Some c"
    and r: "startSession_resume (call_config c) (call_env c) (call_input c) sid (call_wait c) (shared m) = (w, s)"
    and m': "m' = m\<lparr>shared := s, starts := (starts m)(sid \<mapsto> c\<lparr>call_wait := w\<rparr>)\<rparr>"
    by (auto split: option.splits prod.splits)
  from inv c have "waitOk c sid (call_wait c)" by (simp add: managerInv_def)
  from resume_ok [OF r this] have w: "waitOk c sid w"
    and e: "\<And>k x. (k, x) \<in> set (sessions s) \<Longrightarrow> (k, x) \<in> set (sessions (shared m)) \<or> (k = sid \<and> localOk c sid x)"
    by blast+
  have lo: "localOk (c\<lparr>call_wait := w\<rparr>) k x = localOk c k x" for k x
    by (simp add: localOk_def foundBy_def)
  have wo: "waitOk (c\<lparr>call_wait := w\<rparr>) k v = waitOk c k v" for k v
    by (cases v) (simp_all add: lo foundBy_def)
  show ?thesis
    unfolding managerInv_def
  proof (intro conjI allI impI)
    fix k x assume "(k, x) \<in> set (sessions (shared m'))"
    then have kx: "(k, x) \<in> set (sessions s)" by (simp add: m')
    from e [OF kx] show "\<exists>c. starts m' k = Some c \<and> localOk c k x"
    proof
      assume "(k, x) \<in> set (sessions (shared m))"
      with inv obtain c' where c': "starts m k = Some c'" "localOk c' k x"
        unfolding managerInv_def by blast
      show ?thesis
      proof (cases "k = sid")
        case True
        with c c' have "c' = c" by simp
        with c' True show ?thesis by (simp add: m' lo)
      next
        case False
        with c' show ?thesis by (simp add: m')
      qed
    next
      assume "k = sid \<and> localOk c sid x"
      then show ?thesis by (simp add: m' lo)
    qed
  next
    fix k c' assume "starts m' k = Some c'"
    then show "waitOk c' k (call_wait c')"
      using inv w unfolding managerInv_def m' by (auto simp: wo split: if_splits)
  qed
next
  case (CallStop k sid)
  with assms show ?thesis
    by (auto simp: managerInv_def split: if_splits)
next
  case (ResumeStop k)
  with assms(1) obtain c w s where c: "stops m k = Some c"
    and r: "stopSession_resume (stop_sessionId c) (stop_wait c) (shared m) = (w, s)"
    and m': "m' = m\<lparr>shared := s, stops := (stops m)(k \<mapsto> c\<lparr>stop_wait := w\<rparr>)\<rparr>"
    by (auto split: option.splits prod.splits)
  from inv stop_resume_entries [OF r] show ?thesis
    unfolding managerInv_def m' by fastforce
next
  case (ProcessExit p)
  with assms show ?thesis
    by (auto simp: managerInv_def processExited_def)
qed

lemma runSteps_inv:
  "runSteps steps m = Some m' \<Longrightarrow> managerInv m \<Longrightarrow> managerInv m'"
proof (induction steps arbitrary: m)
  case Nil
  then show ?case by simp
next
  case (Cons x xs)
  then show ?case by (auto split: option.splits dest: applyStep_inv)
qed

lemma initialManager_inv: "managerInv initialManager"
  by (simp add: managerInv_def initialManager_def initial_def)

text \<open>
  C2, amended. In every state that calls of \<^verbatim>\<open>startSession\<close> and
  \<^verbatim>\<open>stopSession\<close> and exits of processes reach from the initial state, in
  whatever order the calls go on between their waits: every session of the registry
  either still waits for its emulator, with no process id, the console port 0 and
  the companion port 0, or has a process id, a console port that the port search of
  its own call returned, which is even and at most 5682 and which the probe of that
  call found available, and the companion port next to it.
\<close>

theorem registry_ports_reachable:
  assumes "runSteps steps initialManager = Some m"
  shows "\<forall>x \<in> set (getAllSessions (shared m)).
           placeholderPorts x
         \<or> (givenPorts x
            \<and> (\<exists>c. starts m (sessionId x) = Some c \<and> foundBy c (emulatorPort x)
                  \<and> portAvailable (call_env c) (emulatorPort x)))"
proof
  fix x assume "x \<in> set (getAllSessions (shared m))"
  then obtain k where "(k, x) \<in> set (sessions (shared m))"
    by (auto simp: getAllSessions_def)
  with runSteps_inv [OF assms initialManager_inv] obtain c where
    c: "starts m k = Some c" "localOk c k x"
    unfolding managerInv_def by blast
  have "portAvailable (call_env c) (emulatorPort x)" if "foundBy c (emulatorPort x)"
    using that findAvailableEven_first unfolding foundBy_def by blast
  with c show "placeholderPorts x
         \<or> (givenPorts x
            \<and> (\<exists>c. starts m (sessionId x) = Some c \<and> foundBy c (emulatorPort x)
                  \<and> portAvailable (call_env c) (emulatorPort x)))"
    by (auto simp: localOk_def)
qed

text \<open>A call of \<^verbatim>\<open>startSession\<close> that nothing interrupts is a run of its steps.\<close>

lemma run_add:
  "startSession_run (a + b) cfg env input sid ws
     = startSession_run b cfg env input sid (startSession_run a cfg env input sid ws)"
proof (induction a arbitrary: ws)
  case 0
  then show ?case by simp
next
  case (Suc a)
  then show ?case by (cases ws) simp
qed

lemma run_returned [simp]:
  "startSession_run n cfg env input sid (StartReturned r, s) = (StartReturned r, s)"
  by (induction n) simp_all

lemma setup_run:
  "startSession_run 2 cfg env input sid (AwaitEnsureAvd, updateState sid SETUP_AVD s0) =
     (case startSession_setup cfg env sid s0 of
        (Inl e, s1) \<Rightarrow> (StartReturned (Inl (startSession_error e)), s1)
      | (Inr (session, workspace, info), s1) \<Rightarrow> (AwaitListAvds session workspace info, s1))"
  by (simp add: numeral_2_eq_2 startSession_setup_def Let_def catch_None
      split: sum.splits prod.splits)

lemma catch_run:
  "emulatorPid session = None \<Longrightarrow>
   startSession_run (Suc n) cfg env input sid (startSession_catch (Some session) e s)
     = (StartReturned (Inl (startSession_error e)), rollback env (Some session) s)"
  by (simp add: startSession_catch_def rollback_def Let_def case_prod_beta ignore_result
      split: sum.splits)

lemma catch_run2:
  "startSession_run (Suc (Suc n)) cfg env input sid (startSession_catch (Some session) e s)
     = (StartReturned (Inl (startSession_error e)), rollback env (Some session) s)"
  by (simp add: startSession_catch_def rollback_def Let_def case_prod_beta ignore_result
      split: sum.splits option.splits)

lemma launch_run:
  assumes "emulatorPid session = None" "sessionId session = sid"
  shows "startSession_launch cfg env input session workspace s1 = (Inl e, s2) \<Longrightarrow>
      startSession_run 5 cfg env input sid (AwaitListAvds session workspace info, s1)
        = (StartReturned (Inl (startSession_error e)), rollback env (Some session) s2)"
    and "startSession_launch cfg env input session workspace s1 = (Inr session', s2) \<Longrightarrow>
      startSession_run 4 cfg env input sid (AwaitListAvds session workspace info, s1)
        = (AwaitBoot session' info, s2)"
  using assms
  by (auto simp: eval_nat_numeral startSession_launch_def start_def Let_def catch_run
      split: sum.splits prod.splits option.splits if_splits)

lemma finish_run:
  assumes "sessionId session' = sid"
  shows "startSession_run 4 cfg env input sid (AwaitBoot session' info, s2) =
     (case startSession_finish cfg env input session' info s2 of
        (Inl (e, session''), s3) \<Rightarrow>
          (StartReturned (Inl (startSession_error e)), rollback env (Some session'') s3)
      | (Inr result, s3) \<Rightarrow> (StartReturned (Inr result), s3))"
  using assms
  by (auto simp: eval_nat_numeral startSession_finish_def Let_def catch_run2
      split: sum.splits prod.splits option.splits)

lemma startSession_run_all:
  "startSession_run 10 cfg env input sid (AwaitEnsureAvd, updateState sid SETUP_AVD s0)
     = (StartReturned (fst (startSession cfg env input sid s0)),
        snd (startSession cfg env input sid s0))"
proof -
  let ?x = "(AwaitEnsureAvd, updateState sid SETUP_AVD s0)"
  obtain r1 s1 where su: "startSession_setup cfg env sid s0 = (r1, s1)"
    by (cases "startSession_setup cfg env sid s0") auto
  show ?thesis
  proof (cases r1)
    case (Inl e)
    have "startSession_run (2 + 8) cfg env input sid ?x
        = (StartReturned (Inl (startSession_error e)), s1)"
      unfolding run_add setup_run su Inl by simp
    with su Inl show ?thesis by (simp add: startSession_def rollback_def)
  next
    case (Inr triple)
    obtain session workspace info where triple: "triple = (session, workspace, info)"
      by (cases triple) auto
    note su' = su [unfolded Inr triple]
    from setup_cases [OF su'] have s: "sessionId session = sid" "emulatorPid session = None"
      by auto
    have two: "startSession_run 2 cfg env input sid ?x = (AwaitListAvds session workspace info, s1)"
      unfolding setup_run su' by simp
    obtain r2 s2 where la: "startSession_launch cfg env input session workspace s1 = (r2, s2)"
      by (cases "startSession_launch cfg env input session workspace s1") auto
    show ?thesis
    proof (cases r2)
      case (Inl e)
      have "startSession_run (2 + (5 + 3)) cfg env input sid ?x
          = (StartReturned (Inl (startSession_error e)), rollback env (Some session) s2)"
        unfolding run_add two launch_run(1) [OF s(2,1) la [unfolded Inl]] by simp
      with su' la Inl show ?thesis by (simp add: startSession_def)
    next
      case (Inr session')
      note la' = la [unfolded Inr]
      from launch_cases [OF la'] s have id': "sessionId session' = sid" by auto
      have "startSession_run (2 + (4 + 4)) cfg env input sid ?x
          = (case startSession_finish cfg env input session' info s2 of
               (Inl (e, session''), s3) \<Rightarrow>
                 (StartReturned (Inl (startSession_error e)), rollback env (Some session'') s3)
             | (Inr result, s3) \<Rightarrow> (StartReturned (Inr result), s3))"
        unfolding run_add two launch_run(2) [OF s(2,1) la'] finish_run [OF id'] by simp
      with su' la' show ?thesis
        by (simp add: startSession_def split: prod.splits sum.splits)
    qed
  qed
qed

lemma runSteps_resume:
  assumes "starts m sid = Some c"
  shows "\<exists>m'. runSteps (replicate n (ResumeStart sid)) m = Some m'
     \<and> shared m' = snd (startSession_run n (call_config c) (call_env c) (call_input c) sid
                        (call_wait c, shared m))
     \<and> map_option call_wait (starts m' sid)
         = Some (fst (startSession_run n (call_config c) (call_env c) (call_input c) sid
                        (call_wait c, shared m)))
     \<and> map_option call_config (starts m' sid) = Some (call_config c)
     \<and> map_option call_env (starts m' sid) = Some (call_env c)
     \<and> map_option call_input (starts m' sid) = Some (call_input c)"
  using assms
proof (induction n arbitrary: m c)
  case 0
  then show ?case by simp
next
  case (Suc n)
  obtain w s where r: "startSession_resume (call_config c) (call_env c) (call_input c) sid
      (call_wait c) (shared m) = (w, s)"
    by (cases "startSession_resume (call_config c) (call_env c) (call_input c) sid
      (call_wait c) (shared m)") auto
  let ?m = "m\<lparr>shared := s, starts := (starts m)(sid \<mapsto> c\<lparr>call_wait := w\<rparr>)\<rparr>"
  have "starts ?m sid = Some (c\<lparr>call_wait := w\<rparr>)" by simp
  from Suc.IH [OF this] Suc.prems r show ?case by simp
qed

lemma startSession_as_steps:
  assumes "freshSessionId sid m"
  shows "\<exists>m'. runSteps (CallStart cfg env input sid # replicate 10 (ResumeStart sid)) m = Some m'
     \<and> shared m' = snd (startSession cfg env input sid (shared m))
     \<and> map_option call_wait (starts m' sid)
         = Some (StartReturned (fst (startSession cfg env input sid (shared m))))"
proof -
  let ?c = "\<lparr>call_config = cfg, call_env = env, call_input = input, call_wait = AwaitEnsureAvd\<rparr>"
  let ?m = "m\<lparr>shared := updateState sid SETUP_AVD (shared m), starts := (starts m)(sid \<mapsto> ?c)\<rparr>"
  have "starts ?m sid = Some ?c" by simp
  from runSteps_resume [OF this, of 10] obtain m' where
    "runSteps (replicate 10 (ResumeStart sid)) ?m = Some m'"
    "shared m' = snd (startSession cfg env input sid (shared m))"
    "map_option call_wait (starts m' sid)
       = Some (StartReturned (fst (startSession cfg env input sid (shared m))))"
    by (auto simp: startSession_run_all)
  with assms show ?thesis by simp
qed

lemma stopSession_as_steps:
  assumes "stops m k = None"
  shows "\<exists>m'. runSteps [CallStop k sid, ResumeStop k, ResumeStop k] m = Some m'
     \<and> shared m' = snd (stopSession sid (shared m))
     \<and> map_option stop_wait (stops m' k) = Some (StopReturned (fst (stopSession sid (shared m))))"
  using assms
  by (auto simp: stopSession_def stopSession_enter_def stop_def kill_def cleanup_def
      split: option.splits)

subsection \<open>Runs of two calls\<close>

lemmas step_defs = freshSessionId_def startSession_catch_def create_def updateMeta_def spawn_def isRunning_def
  assignSession_def getSession_def setSession_def deleteSession_def updateState_def Let_def
  exampleEnv_fields exampleEnv_polls exampleConfig_fields exampleInput_def
  listAvds_managed findAvailableEven_first_free requestedPort_def roundUpEven_def
  waitForBoot_example initialManager_def initial_def

lemma waitingSteps_run:
  "\<exists>m. runSteps waitingSteps initialManager = Some m
     \<and> map sessionId (getAllSessions (shared m)) = [''sess-a'', ''sess-b'']
     \<and> map emulatorPort (getAllSessions (shared m)) = [0, 0]
     \<and> map adbPort (getAllSessions (shared m)) = [0, 0]"
  by (simp add: waitingSteps_def raceSteps_def getAllSessions_def step_defs)

lemma raceSteps_run:
  "\<exists>m. runSteps raceSteps initialManager = Some m
     \<and> map sessionId (getAllSessions (shared m)) = [''sess-a'', ''sess-b'']
     \<and> map emulatorPort (getAllSessions (shared m)) = [5554, 5554]
     \<and> map adbPort (getAllSessions (shared m)) = [5555, 5555]
     \<and> map emulatorPid (getAllSessions (shared m)) = [Some 4343, Some 4444]
     \<and> map state (getAllSessions (shared m)) = [READY, READY]
     \<and> isRunning 4343 (shared m) \<and> isRunning 4444 (shared m)"
  by (simp add: raceSteps_def getAllSessions_def step_defs)

lemma sequentialSteps_run:
  "\<exists>m. runSteps sequentialSteps initialManager = Some m
     \<and> map sessionId (getAllSessions (shared m)) = [''sess-a'', ''sess-b'']
     \<and> map emulatorPort (getAllSessions (shared m)) = [5554, 5556]
     \<and> map adbPort (getAllSessions (shared m)) = [5555, 5557]
     \<and> map emulatorPid (getAllSessions (shared m)) = [Some 4343, Some 4444]"
  by (simp add: sequentialSteps_def getAllSessions_def step_defs secondEnv_def
      findAvailableEven_second_free [of 5554 5682])

text \<open>
  Two calls one after the other: the first session has the ports 5554 and 5555,
  the second, for which the probe finds 5554 taken, the ports 5556 and 5557.
\<close>

theorem registry_ports_reachable_witness:
  "\<exists>m. runSteps sequentialSteps initialManager = Some m
     \<and> map emulatorPort (getAllSessions (shared m)) = [5554, 5556]
     \<and> map adbPort (getAllSessions (shared m)) = [5555, 5557]
     \<and> list_all givenPorts (getAllSessions (shared m))"
proof -
  from sequentialSteps_run obtain m where m: "runSteps sequentialSteps initialManager = Some m"
    "map emulatorPort (getAllSessions (shared m)) = [5554, 5556]"
    "map adbPort (getAllSessions (shared m)) = [5555, 5557]"
    "map emulatorPid (getAllSessions (shared m)) = [Some 4343, Some 4444]"
    by auto
  have "givenPorts x" if "x \<in> set (getAllSessions (shared m))" for x
  proof -
    from that have "emulatorPid x \<in> set (map emulatorPid (getAllSessions (shared m)))" by simp
    with m(4) have "\<not> placeholderPorts x" by (auto simp: placeholderPorts_def)
    with registry_ports_reachable [OF m(1)] that show ?thesis by blast
  qed
  then have "list_all givenPorts (getAllSessions (shared m))" by (simp add: list_all_iff)
  with m(1,2,3) show ?thesis by (intro exI [of _ m]) simp
qed

text \<open>
  C2 as stated fails. Two calls that both wait for their emulator are in the
  registry with the console port 0 and the companion port 0. And two calls that
  both search their port before either has spawned its emulator both find the port
  5554: both sessions end in the registry, ready, with the console port 5554 and
  the companion port 5555, each with its own running process.
\<close>

theorem ports_shared_counterexample:
  "map_option (map sessionId \<circ> getAllSessions \<circ> shared) (runSteps waitingSteps initialManager)
     = Some [''sess-a'', ''sess-b'']
   \<and> map_option (map emulatorPort \<circ> getAllSessions \<circ> shared) (runSteps waitingSteps initialManager)
     = Some [0, 0]
   \<and> map_option (map adbPort \<circ> getAllSessions \<circ> shared) (runSteps waitingSteps initialManager)
     = Some [0, 0]
   \<and> map_option (map sessionId \<circ> getAllSessions \<circ> shared) (runSteps raceSteps initialManager)
     = Some [''sess-a'', ''sess-b'']
   \<and> map_option (map emulatorPort \<circ> getAllSessions \<circ> shared) (runSteps raceSteps initialManager)
     = Some [5554, 5554]
   \<and> map_option (map adbPort \<circ> getAllSessions \<circ> shared) (runSteps raceSteps initialManager)
     = Some [5555, 5555]
   \<and> map_option (map emulatorPid \<circ> getAllSessions \<circ> shared) (runSteps raceSteps initialManager)
     = Some [Some 4343, Some 4444]
   \<and> map_option (map state \<circ> getAllSessions \<circ> shared) (runSteps raceSteps initialManager)
     = Some [READY, READY]"
proof -
  from waitingSteps_run obtain m where "runSteps waitingSteps initialManager = Some m"
    "map sessionId (getAllSessions (shared m)) = [''sess-a'', ''sess-b'']"
    "map emulatorPort (getAllSessions (shared m)) = [0, 0]"
    "map adbPort (getAllSessions (shared m)) = [0, 0]"
    by auto
  moreover from raceSteps_run obtain m' where "runSteps raceSteps initialManager = Some m'"
    "map sessionId (getAllSessions (shared m')) = [''sess-a'', ''sess-b'']"
    "map emulatorPort (getAllSessions (shared m')) = [5554, 5554]"
    "map adbPort (getAllSessions (shared m')) = [5555, 5555]"
    "map emulatorPid (getAllSessions (shared m')) = [Some 4343, Some 4444]"
    "map state (getAllSessions (shared m')) = [READY, READY]"
    by auto
  ultimately show ?thesis by simp
qed

end
